theory Spec2Isabelle
  imports Main
begin

section \<open>Wire messages\<close>

text \<open>
  The message shapes of \<^verbatim>\<open>src/src/lib/usePeerService.tsx\<close> (interface \<^verbatim>\<open>PeerData\<close>).
  \<^verbatim>\<open>GateRole | 'NONE'\<close> is the type \<open>role\<close>: the types module declares
  \<^verbatim>\<open>enum GateRole { START = 'START', FINISH = 'FINISH' }\<close>, two members.
  An optional field (\<^verbatim>\<open>name?: string\<close>) is an \<open>option\<close>; \<open>None\<close> is JavaScript's
  \<^verbatim>\<open>undefined\<close>. HostView.tsx also reads \<^verbatim>\<open>GateRole.SPLIT\<close>, which is no member of the
  enumeration: the expression evaluates to \<^verbatim>\<open>undefined\<close>, so it is \<open>None\<close> wherever it is
  used as a role.
\<close>

datatype role = NONE | START | FINISH

datatype messageType = JOIN | ROLE_ASSIGN | STATE_CHANGE | TRIGGER | RESET

record payload =
  name :: "string option"
  role :: "role option"
  state :: "string option"
  timestamp :: "int option"
  raceId :: "string option"

record peerData =
  type :: messageType
  payload :: "payload option"

text \<open>The object literal \<^verbatim>\<open>{}\<close> as a payload: every field undefined.\<close>

definition emptyPayload :: payload where
  "emptyPayload = \<lparr>name = None, role = None, state = None, timestamp = None, raceId = None\<rparr>"

section \<open>The peer service (PeerProvider)\<close>

text \<open>
  A PeerJS data connection is an opaque object with a \<^verbatim>\<open>peer\<close> property (the id of the
  remote side); \<open>connId\<close> tells two connection objects of the same remote peer apart.
\<close>

record dataConnection =
  connId :: nat
  peer :: string

text \<open>
  \<^verbatim>\<open>interface ConnectedPeer { id; conn; role; name? }\<close>. The role of an entry is declared
  \<^verbatim>\<open>GateRole | 'NONE'\<close>, and the Set Split button of HostView.tsx stores \<^verbatim>\<open>GateRole.SPLIT\<close>
  there, that is \<^verbatim>\<open>undefined\<close>: the field is an \<open>option\<close>.
\<close>

record connectedPeer =
  peerId :: string
  conn :: dataConnection
  peerRole :: "role option"
  peerName :: "string option"

text \<open>
  The state of the provider: \<^verbatim>\<open>peersRef.current\<close> (mirrored into the \<^verbatim>\<open>peers\<close> state by
  \<^verbatim>\<open>setPeers([...peersRef.current])\<close> after every write), \<^verbatim>\<open>hostConnectionRef.current\<close>,
  \<^verbatim>\<open>latestMessage\<close> and \<^verbatim>\<open>triggerEvents\<close>. The field \<open>sent\<close> is not a variable of the
  source: it logs, in order, every \<^verbatim>\<open>conn.send(data)\<close> the code performs, as the pair of
  the connection and the message. Every handler below takes the state and returns the
  state after the handler has run and React has committed its state writes.
\<close>

record peerService =
  peers :: "connectedPeer list"
  hostConnection :: "dataConnection option"
  latestMessage :: "peerData option"
  triggerEvents :: "(role \<times> int) list"
  sent :: "(dataConnection \<times> peerData) list"

definition send :: "dataConnection \<Rightarrow> peerData \<Rightarrow> 'a peerService_scheme \<Rightarrow> 'a peerService_scheme" where
  "send c d s = s\<lparr>sent := sent s @ [(c, d)]\<rparr>"

text \<open>
  \<^verbatim>\<open>handleMessage\<close> (usePeerService.tsx, lines 74-81). A role string is never empty, so
  \<^verbatim>\<open>data.payload?.role\<close> is truthy exactly when it is defined; a timestamp is truthy when
  it is defined and not 0.
\<close>

definition handleMessage :: "peerData \<Rightarrow> string \<Rightarrow> 'a peerService_scheme \<Rightarrow> 'a peerService_scheme" where
  "handleMessage data senderId s =
     (let s1 = s\<lparr>latestMessage := Some data\<rparr> in
      case payload data of
        None \<Rightarrow> s1
      | Some p \<Rightarrow>
          (case (role p, timestamp p) of
             (Some r, Some t) \<Rightarrow>
               if type data = TRIGGER \<and> t \<noteq> 0
               then s1\<lparr>triggerEvents := triggerEvents s1 @ [(r, t)]\<rparr>
               else s1
           | _ \<Rightarrow> s1))"

text \<open>\<^verbatim>\<open>sendToHostInternal\<close> (lines 83-88).\<close>

definition sendToHostInternal :: "peerData \<Rightarrow> 'a peerService_scheme \<Rightarrow> 'a peerService_scheme" where
  "sendToHostInternal data s =
     (case hostConnection s of
        Some c \<Rightarrow> send c data s
      | None \<Rightarrow> s)"

text \<open>
  The handlers \<^verbatim>\<open>handleIncomingConnection\<close> registers on a connection in host mode
  (lines 90-122): open, data, close and error.
\<close>

definition connOpen :: "dataConnection \<Rightarrow> 'a peerService_scheme \<Rightarrow> 'a peerService_scheme" where
  "connOpen c s =
     s\<lparr>peers := peers s @
        [\<lparr>peerId = peer c, conn = c, peerRole = Some NONE, peerName = Some ''Unknown''\<rparr>]\<rparr>"

definition joinName :: "peerData \<Rightarrow> string option" where
  "joinName data =
     (case payload data of
        None \<Rightarrow> None
      | Some p \<Rightarrow> (case name p of None \<Rightarrow> None | Some n \<Rightarrow> if n = [] then None else Some n))"

definition connData :: "dataConnection \<Rightarrow> peerData \<Rightarrow> 'a peerService_scheme \<Rightarrow> 'a peerService_scheme" where
  "connData c data s =
     (if type data = JOIN
      then s\<lparr>peers := map (\<lambda>p. if peerId p = peer c
                                then (case joinName data of
                                        Some n \<Rightarrow> p\<lparr>peerName := Some n\<rparr>
                                      | None \<Rightarrow> p)
                                else p) (peers s)\<rparr>
      else handleMessage data (peer c) s)"

definition connClose :: "dataConnection \<Rightarrow> 'a peerService_scheme \<Rightarrow> 'a peerService_scheme" where
  "connClose c s = s\<lparr>peers := filter (\<lambda>p. peerId p \<noteq> peer c) (peers s)\<rparr>"

definition connError :: "dataConnection \<Rightarrow> 'a peerService_scheme \<Rightarrow> 'a peerService_scheme" where
  "connError c s = s\<lparr>peers := filter (\<lambda>p. peerId p \<noteq> peer c) (peers s)\<rparr>"

text \<open>
  \<^verbatim>\<open>assignRole\<close> (lines 253-264): the map over the registry, then one ROLE_ASSIGN message
  on the connection of the first entry with the id, if there is one.
\<close>

definition assignRole :: "string \<Rightarrow> role option \<Rightarrow> 'a peerService_scheme \<Rightarrow> 'a peerService_scheme" where
  "assignRole pid r s =
     (let s1 = s\<lparr>peers := map (\<lambda>p. if peerId p = pid then p\<lparr>peerRole := r\<rparr> else p) (peers s)\<rparr> in
      case find (\<lambda>p. peerId p = pid) (peers s1) of
        Some p \<Rightarrow> send (conn p) \<lparr>type = ROLE_ASSIGN, payload = Some (emptyPayload\<lparr>role := r\<rparr>)\<rparr> s1
      | None \<Rightarrow> s1)"

text \<open>\<^verbatim>\<open>broadcastState\<close> (lines 266-273), \<^verbatim>\<open>sendReset\<close> (275-279), \<^verbatim>\<open>broadcastReset\<close> (281-284).\<close>

definition stateChange :: "string \<Rightarrow> string option \<Rightarrow> peerData" where
  "stateChange st rid =
     \<lparr>type = STATE_CHANGE, payload = Some (emptyPayload\<lparr>state := Some st, raceId := rid\<rparr>)\<rparr>"

definition broadcastState :: "string \<Rightarrow> string option \<Rightarrow> 'a peerService_scheme \<Rightarrow> 'a peerService_scheme" where
  "broadcastState st rid s = foldl (\<lambda>acc p. send (conn p) (stateChange st rid) acc) s (peers s)"

definition resetMessage :: peerData where
  "resetMessage = \<lparr>type = RESET, payload = None\<rparr>"

definition sendReset :: "'a peerService_scheme \<Rightarrow> 'a peerService_scheme" where
  "sendReset s = foldl (\<lambda>acc p. send (conn p) resetMessage acc) s (peers s)"

definition broadcastReset :: "'a peerService_scheme \<Rightarrow> 'a peerService_scheme" where
  "broadcastReset s = (sendReset s)\<lparr>triggerEvents := []\<rparr>"

text \<open>\<^verbatim>\<open>sendTrigger\<close> (lines 286-294).\<close>

definition sendTrigger :: "role option \<Rightarrow> int \<Rightarrow> string option \<Rightarrow> 'a peerService_scheme \<Rightarrow> 'a peerService_scheme" where
  "sendTrigger r t rid s =
     (case hostConnection s of
        Some c \<Rightarrow>
          send c \<lparr>type = TRIGGER,
                  payload = Some (emptyPayload\<lparr>role := r, timestamp := Some t, raceId := rid\<rparr>)\<rparr> s
      | None \<Rightarrow> s)"

text \<open>
  The earlier hook \<^verbatim>\<open>src/lib/usePeerService.ts\<close>, which the gate view of
  \<^verbatim>\<open>src/components/GateView.tsx\<close> is written against: \<^verbatim>\<open>sendToHost\<close> (lines 140-145),
  \<^verbatim>\<open>sendTrigger\<close> (147-152) and \<^verbatim>\<open>handleMessage\<close> (154-157). Its state has the same
  \<^verbatim>\<open>peers\<close>, \<^verbatim>\<open>hostConnection\<close> and \<^verbatim>\<open>latestMessage\<close>, and no \<^verbatim>\<open>triggerEvents\<close>.
\<close>

definition sendToHost_v1 :: "peerData \<Rightarrow> 'a peerService_scheme \<Rightarrow> 'a peerService_scheme" where
  "sendToHost_v1 data s =
     (case hostConnection s of
        Some c \<Rightarrow> send c data s
      | None \<Rightarrow> s)"

definition sendTrigger_v1 :: "role option \<Rightarrow> int \<Rightarrow> 'a peerService_scheme \<Rightarrow> 'a peerService_scheme" where
  "sendTrigger_v1 r t s =
     (case hostConnection s of
        Some c \<Rightarrow>
          send c \<lparr>type = TRIGGER, payload = Some (emptyPayload\<lparr>role := r, timestamp := Some t\<rparr>)\<rparr> s
      | None \<Rightarrow> s)"

definition handleMessage_v1 :: "peerData \<Rightarrow> string \<Rightarrow> 'a peerService_scheme \<Rightarrow> 'a peerService_scheme" where
  "handleMessage_v1 data senderId s = s\<lparr>latestMessage := Some data\<rparr>"

section \<open>The host view (HostView.tsx) and its race state machine\<close>

datatype raceState = IDLE | ARMED | RUNNING | FINISHED

text \<open>
  \<^verbatim>\<open>Date.now().toString()\<close>: the decimal digits of an integer (a millisecond count is
  far below the 1e21 from which JavaScript prints an exponent).
\<close>

definition digitChar :: "nat \<Rightarrow> char" where
  "digitChar d = ''0123456789'' ! d"

fun natToString :: "nat \<Rightarrow> string" where
  "natToString n = (if n < 10 then [digitChar n] else natToString (n div 10) @ [digitChar (n mod 10)])"

definition toString :: "int \<Rightarrow> string" where
  "toString i = (if i < 0 then CHR ''-'' # natToString (nat (- i)) else natToString (nat i))"

text \<open>
  The host is the provider's state extended by the state variables of HostView
  (\<^verbatim>\<open>raceState\<close>, \<^verbatim>\<open>startTime\<close>, \<^verbatim>\<open>elapsedTime\<close>, \<^verbatim>\<open>timerInterval\<close>, \<^verbatim>\<open>preciseTime\<close>,
  \<^verbatim>\<open>splitTimes\<close>), by \<^verbatim>\<open>supabaseService.currentRace?.id\<close>, and by what the runtime holds
  for the effects the handlers perform:
  \<^item> \<open>intervals\<close>: the interval timers that \<^verbatim>\<open>setInterval\<close> created and \<^verbatim>\<open>clearInterval\<close>
    has not removed, each with its handle and the \<^verbatim>\<open>now\<close> its callback closes over;
  \<^item> \<open>nextTimer\<close>: the handle the next \<^verbatim>\<open>setInterval\<close> returns;
  \<^item> \<open>dbCalls\<close>: the status updates \<^verbatim>\<open>supabaseService.updateRaceStatus\<close> issues.
  A handle is a number; \<^verbatim>\<open>if (timerInterval)\<close> is false for null and for 0.
\<close>

record host = peerService +
  raceState :: raceState
  startTime :: int
  elapsedTime :: int
  timerInterval :: "nat option"
  preciseTime :: "int option"
  splitTimes :: "string \<rightharpoonup> int"
  currentRace :: "string option"
  intervals :: "(nat \<times> int) list"
  nextTimer :: nat
  dbCalls :: "string list"

text \<open>\<^verbatim>\<open>canStart\<close> (HostView.tsx, line 31).\<close>

definition canStart :: "host \<Rightarrow> bool" where
  "canStart s = list_ex (\<lambda>p. peerRole p = Some START) (peers s)"

text \<open>
  \<^verbatim>\<open>updateRaceStatus\<close> (useSupabaseService.ts, lines 44-79) returns at once while no race
  is loaded; otherwise it issues the update. The database's answer is outside the model.
\<close>

definition updateRaceStatus :: "string \<Rightarrow> host \<Rightarrow> host" where
  "updateRaceStatus st s =
     (case currentRace s of
        None \<Rightarrow> s
      | Some _ \<Rightarrow> s\<lparr>dbCalls := dbCalls s @ [st]\<rparr>)"

text \<open>\<^verbatim>\<open>startTimer\<close> (lines 53-63); \<open>now\<close> is what \<^verbatim>\<open>Date.now()\<close> returns.\<close>

definition startTimer :: "int \<Rightarrow> host \<Rightarrow> host" where
  "startTimer now s =
     s\<lparr>raceState := RUNNING,
       startTime := now,
       intervals := intervals s @ [(nextTimer s, now)],
       timerInterval := Some (nextTimer s),
       nextTimer := Suc (nextTimer s)\<rparr>"

text \<open>\<^verbatim>\<open>stopTimer\<close> (lines 65-70).\<close>

definition stopTimer :: "host \<Rightarrow> host" where
  "stopTimer s =
     (case timerInterval s of
        None \<Rightarrow> s
      | Some h \<Rightarrow>
          if h \<noteq> 0
          then s\<lparr>intervals := filter (\<lambda>iv. fst iv \<noteq> h) (intervals s), timerInterval := None\<rparr>
          else s)"

text \<open>
  \<^verbatim>\<open>handleTrigger\<close> (lines 72-91). \<open>r\<close> and \<open>remoteTimestamp\<close> are the role and the timestamp
  of the message's payload; \<open>now\<close> is the first \<^verbatim>\<open>Date.now()\<close> a branch reads and \<open>keyNow\<close>
  the one the second branch reads for the key of the new entry. The test of the second
  branch is \<^verbatim>\<open>role === GateRole.SPLIT\<close>, that is \<^verbatim>\<open>role === undefined\<close>: the branch is taken
  by a trigger that carries no role.
\<close>

definition handleTrigger :: "role option \<Rightarrow> int option \<Rightarrow> int \<Rightarrow> int \<Rightarrow> host \<Rightarrow> host" where
  "handleTrigger r remoteTimestamp now keyNow s =
     (if raceState s = ARMED \<and> r = Some START then
        updateRaceStatus ''racing'' (startTimer now s)
      else if raceState s = RUNNING \<and> r = None then
        s\<lparr>splitTimes := (splitTimes s)(toString keyNow \<mapsto> now - startTime s)\<rparr>
      else if raceState s = RUNNING \<and> r = Some FINISH then
        updateRaceStatus ''finished''
          ((broadcastState ''LOBBY'' None ((stopTimer s)\<lparr>raceState := FINISHED\<rparr>))
             \<lparr>elapsedTime := now - startTime s\<rparr>)
      else s)"

text \<open>
  \<^verbatim>\<open>setRole\<close> (lines 93-103): \<^verbatim>\<open>forEach\<close> runs over the \<^verbatim>\<open>peers\<close> of the render, while each
  \<^verbatim>\<open>assignRole\<close> works on the registry the previous one left.
\<close>

definition setRole :: "string \<Rightarrow> role option \<Rightarrow> host \<Rightarrow> host" where
  "setRole pid r s =
     assignRole pid r
       (foldl (\<lambda>acc p. if peerRole p = r \<and> peerId p \<noteq> pid then assignRole (peerId p) (Some NONE) acc else acc)
          s (peers s))"

text \<open>\<^verbatim>\<open>armSystem\<close> (lines 105-113) and \<^verbatim>\<open>cancelRace\<close> (lines 115-124).\<close>

definition armSystem :: "host \<Rightarrow> host" where
  "armSystem s =
     updateRaceStatus ''armed''
       (broadcastState ''ARMED'' (currentRace s)
          (s\<lparr>raceState := ARMED, elapsedTime := 0, preciseTime := None\<rparr>))"

definition cancelRace :: "host \<Rightarrow> host" where
  "cancelRace s =
     updateRaceStatus ''lobby''
       ((broadcastState ''LOBBY'' None ((stopTimer s)\<lparr>raceState := IDLE\<rparr>))
          \<lparr>elapsedTime := 0, preciseTime := None\<rparr>)"

text \<open>
  The effect that listens for trigger messages (lines 127-134). It runs when
  \<^verbatim>\<open>latestMessage\<close> changes and again whenever \<^verbatim>\<open>handleTrigger\<close> is rebuilt.
\<close>

definition triggerEffect :: "int \<Rightarrow> int \<Rightarrow> host \<Rightarrow> host" where
  "triggerEffect now keyNow s =
     (case latestMessage s of
        None \<Rightarrow> s
      | Some msg \<Rightarrow>
          if type msg = TRIGGER
          then (case payload msg of
                  None \<Rightarrow> s
                | Some p \<Rightarrow> handleTrigger (role p) (timestamp p) now keyNow s)
          else s)"

text \<open>
  The callback of the interval timer (lines 58-60), run for each timer that is alive.
\<close>

definition tick :: "int \<Rightarrow> host \<Rightarrow> host" where
  "tick now s = foldl (\<lambda>acc iv. acc\<lparr>elapsedTime := now - snd iv\<rparr>) s (intervals s)"

text \<open>
  The controls (lines 233-333). A button that is not rendered or is disabled runs no
  handler: Arm System is rendered in IDLE and FINISHED and disabled unless \<^verbatim>\<open>canStart\<close>;
  Cancel and Stop Race are rendered in ARMED and RUNNING; the role buttons and Reset All
  are rendered while the registry is not empty, and a role button assigns its role to the
  first peer whose role is NONE: Set Start \<open>Some START\<close>, Set Finish \<open>Some FINISH\<close> and
  Set Split \<open>None\<close>, the value of \<^verbatim>\<open>GateRole.SPLIT\<close>.
\<close>

definition armButton :: "host \<Rightarrow> host" where
  "armButton s =
     (if (raceState s = IDLE \<or> raceState s = FINISHED) \<and> canStart s then armSystem s else s)"

definition cancelButton :: "host \<Rightarrow> host" where
  "cancelButton s =
     (if raceState s = ARMED \<or> raceState s = RUNNING then cancelRace s else s)"

definition roleButton :: "role option \<Rightarrow> host \<Rightarrow> host" where
  "roleButton r s =
     (case find (\<lambda>p. peerRole p = Some NONE) (peers s) of
        None \<Rightarrow> s
      | Some p \<Rightarrow> setRole (peerId p) r s)"

definition resetButton :: "host \<Rightarrow> host" where
  "resetButton s = (if peers s = [] then s else broadcastReset s)"

text \<open>
  What can happen to a host, one event at a time: the four connection events, a direct
  \<^verbatim>\<open>setRole\<close>, the controls, a timer tick, a rerun of the trigger effect on the message
  that is still the latest, and the database reporting the race it created. A data event
  that is not a JOIN changes \<^verbatim>\<open>latestMessage\<close>, so the trigger effect runs after it:
  \<open>hostStep\<close> is the callback of the event together with that run. What React does
  besides on every render is the subject of the next section.
\<close>

datatype hostEvent =
    ConnOpen dataConnection
  | ConnData dataConnection peerData int int
  | ConnClose dataConnection
  | ConnError dataConnection
  | SetRole string "role option"
  | RoleButton "role option"
  | ArmButton
  | CancelButton
  | ResetButton
  | Tick int
  | EffectRerun int int
  | RaceLoaded string

fun hostStep :: "hostEvent \<Rightarrow> host \<Rightarrow> host" where
  "hostStep (ConnOpen c) s = connOpen c s"
| "hostStep (ConnData c d now keyNow) s =
     (if type d = JOIN then connData c d s else triggerEffect now keyNow (connData c d s))"
| "hostStep (ConnClose c) s = connClose c s"
| "hostStep (ConnError c) s = connError c s"
| "hostStep (SetRole pid r) s = setRole pid r s"
| "hostStep (RoleButton r) s = roleButton r s"
| "hostStep ArmButton s = armButton s"
| "hostStep CancelButton s = cancelButton s"
| "hostStep ResetButton s = resetButton s"
| "hostStep (Tick now) s = tick now s"
| "hostStep (EffectRerun now keyNow) s = triggerEffect now keyNow s"
| "hostStep (RaceLoaded rid) s = s\<lparr>currentRace := Some rid\<rparr>"

definition hostRun :: "hostEvent list \<Rightarrow> host \<Rightarrow> host" where
  "hostRun evs s = foldl (\<lambda>acc e. hostStep e acc) s evs"

text \<open>The host when HostView mounts on a fresh provider.\<close>

definition host0 :: host where
  "host0 = \<lparr>peers = [], hostConnection = None, latestMessage = None, triggerEvents = [],
            sent = [], raceState = IDLE, startTime = 0, elapsedTime = 0, timerInterval = None,
            preciseTime = None, splitTimes = Map.empty, currentRace = None, intervals = [],
            nextTimer = 1, dbCalls = []\<rparr>"

section \<open>What every render of HostView runs\<close>

text \<open>
  \<^verbatim>\<open>useSupabaseService\<close> returns a new object on every render, and \<^verbatim>\<open>supabaseService\<close> is
  a dependency of the first effect of HostView (lines 33-51) and of \<^verbatim>\<open>handleTrigger\<close>, which
  is a dependency of the trigger effect (lines 127-134). So React runs both after every
  render:
  \<^item> the cleanup the first effect installed on the render before, which closes over the
    \<^verbatim>\<open>timerInterval\<close> of that render and clears that timer if the handle is truthy; then
    the body of the first effect, which installs the cleanup of this render and calls
    \<^verbatim>\<open>createRace\<close> (the insert is outside the model, its answer is the event \<open>RaceLoaded\<close>);
  \<^item> the trigger effect, on the message that is the latest, with the state of this render.
  A view is the host paired with the handle the installed cleanup closes over, and
  \<open>render\<close> is one such pass. The third effect (lines 136-156) reads the triggers the
  database reports and is outside the model.
\<close>

definition effectCleanup :: "nat option \<Rightarrow> host \<Rightarrow> host" where
  "effectCleanup captured s =
     (case captured of
        None \<Rightarrow> s
      | Some h \<Rightarrow>
          if h \<noteq> 0
          then s\<lparr>intervals := filter (\<lambda>iv. fst iv \<noteq> h) (intervals s)\<rparr>
          else s)"

definition render :: "int \<Rightarrow> int \<Rightarrow> host \<times> nat option \<Rightarrow> host \<times> nat option" where
  "render now keyNow v =
     (triggerEffect now keyNow (effectCleanup (snd v) (fst v)), timerInterval (fst v))"

text \<open>
  The callback of an event alone, without any effect: for a data event the connection's
  data handler (the clock readings of the event belong to the effect run that \<open>hostStep\<close>
  adds); a rerun of the effect is no callback.
\<close>

fun callback :: "hostEvent \<Rightarrow> host \<Rightarrow> host" where
  "callback (ConnData c d now keyNow) s = connData c d s"
| "callback (EffectRerun now keyNow) s = s"
| "callback e s = hostStep e s"

text \<open>
  The life of a view: callbacks, and the renders React makes after each change of the
  state. \<open>view0\<close> is the view after HostView has mounted on a fresh provider.
\<close>

datatype viewEvent =
    Callback hostEvent
  | Render int int

fun viewStep :: "viewEvent \<Rightarrow> host \<times> nat option \<Rightarrow> host \<times> nat option" where
  "viewStep (Callback e) v = (callback e (fst v), snd v)"
| "viewStep (Render now keyNow) v = render now keyNow v"

definition viewRun :: "viewEvent list \<Rightarrow> host \<times> nat option \<Rightarrow> host \<times> nat option" where
  "viewRun evs v = foldl (\<lambda>acc e. viewStep e acc) v evs"

definition view0 :: "host \<times> nat option" where
  "view0 = (host0, None)"

section \<open>The gate view (GateView.tsx) and its motion detector\<close>

datatype gateStatus = LOBBY | GATE_ARMED | TRIGGERED

text \<open>
  Reading a property of \<^verbatim>\<open>undefined\<close> throws; the gate view of
  \<^verbatim>\<open>src/components/GateView.tsx\<close> reads \<^verbatim>\<open>msg.payload.role\<close> and \<^verbatim>\<open>msg.payload.state\<close>
  without a guard.
\<close>

datatype error = TypeError

text \<open>
  A gate is the state of the hook \<^verbatim>\<open>src/lib/usePeerService.ts\<close> extended by the state
  variables of GateView (\<^verbatim>\<open>status\<close>, \<^verbatim>\<open>role\<close>) and of \<^verbatim>\<open>src/lib/useMotionService.ts\<close>
  (\<^verbatim>\<open>isArmed\<close>, \<^verbatim>\<open>motionDetected\<close>, \<^verbatim>\<open>currentDiff\<close>). \<open>canVibrate\<close> is
  \<^verbatim>\<open>'vibrate' in navigator\<close> and \<open>vibrations\<close> logs the calls of \<^verbatim>\<open>navigator.vibrate\<close>.

  \<open>loopArmed\<close> is the \<^verbatim>\<open>isArmed\<close> the running detection loop reads. The loop is a closure
  that \<^verbatim>\<open>detectMotion\<close> builds, and it reads the \<^verbatim>\<open>isArmed\<close> of the render that built that
  \<^verbatim>\<open>detectMotion\<close>. \<^verbatim>\<open>startCamera\<close> is memoized with an empty dependency list (lines 36-55),
  so every loop it starts is built by the \<^verbatim>\<open>detectMotion\<close> of the first render, where
  \<^verbatim>\<open>isArmed\<close> is the initial \<^verbatim>\<open>false\<close>: no handler writes \<open>loopArmed\<close>.

  GateView.tsx calls \<^verbatim>\<open>init\<close> and \<^verbatim>\<open>destroy\<close> on its instance of the hook and never
  \<^verbatim>\<open>connectToHost\<close>, the one place that sets \<^verbatim>\<open>hostConnection\<close>: no handler of a gate
  writes \<open>hostConnection\<close> either.
\<close>

record gate = peerService +
  gateStatus :: gateStatus
  gateRole :: "role option"
  isArmed :: bool
  motionDetected :: bool
  currentDiff :: nat
  loopArmed :: bool
  canVibrate :: bool
  vibrations :: "nat list"

text \<open>The configuration of useMotionService.ts (lines 15-17).\<close>

definition sensitivity :: nat where
  "sensitivity = 20"

text \<open>\<^verbatim>\<open>armSystem\<close> of useMotionService.ts (lines 68-73).\<close>

definition motionArmSystem :: "bool \<Rightarrow> gate \<Rightarrow> gate" where
  "motionArmSystem armed g =
     (if armed then g\<lparr>isArmed := armed, motionDetected := False\<rparr> else g\<lparr>isArmed := armed\<rparr>)"

text \<open>
  One pass of the detection loop over a frame that has a predecessor (lines 98-121):
  \<open>diffCount\<close> is the number of changed pixels the frame differencing counted. The
  \<^verbatim>\<open>isArmed\<close> of line 116 is the one of the loop's closure.
\<close>

definition detectMotion :: "nat \<Rightarrow> gate \<Rightarrow> gate" where
  "detectMotion diffCount g =
     (let g1 = g\<lparr>currentDiff := diffCount\<rparr> in
      if loopArmed g \<and> diffCount > sensitivity
      then g1\<lparr>motionDetected := True, isArmed := False\<rparr>
      else g1)"

text \<open>
  \<^verbatim>\<open>handleMotionTrigger\<close> (GateView.tsx, lines 27-37); \<open>r\<close> is the \<^verbatim>\<open>role\<close> of the render that
  built the callback.
\<close>

definition handleMotionTrigger :: "role option \<Rightarrow> int \<Rightarrow> gate \<Rightarrow> gate" where
  "handleMotionTrigger r now g =
     (let g1 = g\<lparr>gateStatus := TRIGGERED\<rparr>;
          g2 = (if canVibrate g1 then g1\<lparr>vibrations := vibrations g1 @ [200]\<rparr> else g1)
      in sendTrigger_v1 r now g2)"

text \<open>The effect that listens for peer messages (lines 57-80).\<close>

definition messageEffect :: "gate \<Rightarrow> error + gate" where
  "messageEffect g =
     (case latestMessage g of
        None \<Rightarrow> Inr g
      | Some msg \<Rightarrow>
          (case type msg of
             ROLE_ASSIGN \<Rightarrow>
               (case payload msg of
                  None \<Rightarrow> Inl TypeError
                | Some p \<Rightarrow> Inr (g\<lparr>gateRole := role p\<rparr>))
           | STATE_CHANGE \<Rightarrow>
               (case payload msg of
                  None \<Rightarrow> Inl TypeError
                | Some p \<Rightarrow>
                    if state p = Some ''ARMED'' then Inr (motionArmSystem True (g\<lparr>gateStatus := GATE_ARMED\<rparr>))
                    else if state p = Some ''LOBBY'' then Inr (motionArmSystem False (g\<lparr>gateStatus := LOBBY\<rparr>))
                    else Inr g)
           | RESET \<Rightarrow> Inr (motionArmSystem False (g\<lparr>gateStatus := LOBBY\<rparr>))
           | _ \<Rightarrow> Inr g))"

text \<open>
  The effect that listens for the motion trigger (lines 82-87). Its test reads the
  \<^verbatim>\<open>motionDetected\<close> and the \<^verbatim>\<open>status\<close> of the render, \<open>rendered\<close>; its writes go on top of
  those of the effects that ran before it, \<open>g\<close>.
\<close>

definition motionEffect :: "int \<Rightarrow> gate \<Rightarrow> gate \<Rightarrow> gate" where
  "motionEffect now rendered g =
     (if motionDetected rendered \<and> gateStatus rendered = GATE_ARMED
      then handleMotionTrigger (gateRole rendered) now g
      else g)"

text \<open>
  \<^verbatim>\<open>useMotionService\<close> and \<^verbatim>\<open>usePeerService\<close> return a new object on every render, and
  the message effect depends on \<^verbatim>\<open>motionService\<close>, the motion effect on
  \<^verbatim>\<open>handleMotionTrigger\<close>, which depends on \<^verbatim>\<open>peerService\<close>. So React runs both after
  every render, the message effect on the message that is still the latest. \<open>gateRender\<close>
  is one such pass; the result is the state the gate is left in and the error, if the
  message effect threw. The other two effects of GateView (lines 39-55 and 89-101)
  restart the hook's Peer and the camera; of the fields of the model \<^verbatim>\<open>destroy\<close> resets
  \<^verbatim>\<open>peers\<close> and \<^verbatim>\<open>hostConnection\<close>, which in a gate are empty and null from the mount on.
\<close>

definition gateRender :: "int \<Rightarrow> gate \<Rightarrow> error option \<times> gate" where
  "gateRender now g =
     (case messageEffect g of
        Inl e \<Rightarrow> (Some e, g)
      | Inr g1 \<Rightarrow> (None, motionEffect now g g1))"

text \<open>
  The events of a gate: a message handed to \<^verbatim>\<open>handleMessage\<close>, a frame of the camera, and
  a render for any other reason. Each changes the state, and the render that follows runs
  the effects.
\<close>

datatype gateEvent =
    Receive string peerData int
  | Frame nat int
  | Rerender int

fun gateStep :: "gateEvent \<Rightarrow> gate \<Rightarrow> error option \<times> gate" where
  "gateStep (Receive senderId d now) g = gateRender now (handleMessage_v1 d senderId g)"
| "gateStep (Frame diffCount now) g = gateRender now (detectMotion diffCount g)"
| "gateStep (Rerender now) g = gateRender now g"

text \<open>A run of a gate stops at the first error: the view is gone.\<close>

fun gateRun :: "gateEvent list \<Rightarrow> gate \<Rightarrow> error option \<times> gate" where
  "gateRun [] g = (None, g)"
| "gateRun (e # es) g =
     (case gateStep e g of
        (Some err, g1) \<Rightarrow> (Some err, g1)
      | (None, g1) \<Rightarrow> gateRun es g1)"

text \<open>
  The transport between the host and its gates: the gate at the far end of each
  connection of the host, paired with the error that ended its view, if any. \<open>deliver\<close>
  hands the messages to their gates in the order given; \<open>clock k\<close> is the time at the gate
  when the message number \<open>k\<close> arrives, and \<open>hostId\<close> the id of the host.
\<close>

definition gateDeliver :: "string \<Rightarrow> peerData \<Rightarrow> int \<Rightarrow> error option \<times> gate \<Rightarrow> error option \<times> gate" where
  "gateDeliver hostId d now eg =
     (case fst eg of
        Some e \<Rightarrow> eg
      | None \<Rightarrow> gateStep (Receive hostId d now) (snd eg))"

fun deliver :: "string \<Rightarrow> (nat \<Rightarrow> int) \<Rightarrow> (dataConnection \<times> peerData) list
    \<Rightarrow> (dataConnection \<Rightarrow> error option \<times> gate) \<Rightarrow> (dataConnection \<Rightarrow> error option \<times> gate)" where
  "deliver hostId clock [] gs = gs"
| "deliver hostId clock (m # ms) gs =
     deliver hostId (\<lambda>k. clock (Suc k)) ms
       (gs(fst m := gateDeliver hostId (snd m) (clock 0) (gs (fst m))))"

text \<open>A gate when GateView mounts.\<close>

definition gate0 :: gate where
  "gate0 = \<lparr>peers = [], hostConnection = None, latestMessage = None, triggerEvents = [],
            sent = [], gateStatus = LOBBY, gateRole = Some NONE, isArmed = False,
            motionDetected = False, currentDiff = 0, loopArmed = False, canVibrate = True,
            vibrations = []\<rparr>"

section \<open>Definitions for the properties\<close>

text \<open>The registry entries that hold a role.\<close>

definition holders :: "role option \<Rightarrow> connectedPeer list \<Rightarrow> connectedPeer list" where
  "holders r ps = filter (\<lambda>p. peerRole p = r) ps"

text \<open>Role exclusivity of a registry: two entries that hold the same role other than NONE
  are entries of one peer id.\<close>

definition roleExclusive :: "connectedPeer list \<Rightarrow> bool" where
  "roleExclusive ps =
     (\<forall>p\<in>set ps. \<forall>q\<in>set ps. peerRole p \<noteq> Some NONE \<and> peerRole p = peerRole q \<longrightarrow> peerId p = peerId q)"

text \<open>The message \<^verbatim>\<open>assignRole\<close> sends.\<close>

definition roleAssign :: "role option \<Rightarrow> peerData" where
  "roleAssign r = \<lparr>type = ROLE_ASSIGN, payload = Some (emptyPayload\<lparr>role := r\<rparr>)\<rparr>"

text \<open>The registry with the roles of the given peer ids cleared, and what \<^verbatim>\<open>setRole\<close> makes of
  one entry; both describe results of the handlers in the lemmas below.\<close>

definition clearRoles :: "string set \<Rightarrow> connectedPeer list \<Rightarrow> connectedPeer list" where
  "clearRoles I ps = map (\<lambda>p. if peerId p \<in> I then p\<lparr>peerRole := Some NONE\<rparr> else p) ps"

definition setRolePeer :: "string \<Rightarrow> role option \<Rightarrow> connectedPeer list \<Rightarrow> connectedPeer \<Rightarrow> connectedPeer" where
  "setRolePeer pid r ps p =
     (if peerId p = pid then p\<lparr>peerRole := r\<rparr>
      else if (\<exists>x\<in>set ps. peerRole x = r \<and> peerId x = peerId p) then p\<lparr>peerRole := Some NONE\<rparr>
      else p)"

text \<open>The timer invariant: handles are never 0, and \<^verbatim>\<open>timerInterval\<close> holds a handle exactly in
  RUNNING, where the one live interval timer has that handle and measures from
  \<^verbatim>\<open>startTime\<close>; in every other status no interval timer is alive.\<close>

definition samplerInv :: "host \<Rightarrow> bool" where
  "samplerInv s =
     (nextTimer s \<noteq> 0 \<and>
      (case timerInterval s of
         None \<Rightarrow> raceState s \<noteq> RUNNING \<and> intervals s = []
       | Some h \<Rightarrow> h \<noteq> 0 \<and> raceState s = RUNNING \<and> intervals s = [(h, startTime s)]))"

text \<open>The message \<open>m\<close> on the connection of the first registry entry with the id, if any.\<close>

definition targetMessage :: "string \<Rightarrow> peerData \<Rightarrow> connectedPeer list \<Rightarrow> (dataConnection \<times> peerData) list" where
  "targetMessage pid m ps =
     (case find (\<lambda>p. peerId p = pid) ps of
        Some p \<Rightarrow> [(conn p, m)]
      | None \<Rightarrow> [])"

text \<open>The holders of \<open>r\<close> that \<^verbatim>\<open>setRole(pid, r)\<close> clears, in registry order.\<close>

definition otherHolders :: "string \<Rightarrow> role option \<Rightarrow> connectedPeer list \<Rightarrow> connectedPeer list" where
  "otherHolders pid r ps = filter (\<lambda>x. peerRole x = r \<and> peerId x \<noteq> pid) ps"

text \<open>A message with the timestamp of its payload removed, and an event with the
  timestamp of the message it carries removed.\<close>

definition eraseTimestamp :: "peerData \<Rightarrow> peerData" where
  "eraseTimestamp d = d\<lparr>payload := map_option (\<lambda>p. p\<lparr>timestamp := None\<rparr>) (payload d)\<rparr>"

fun eraseEvent :: "hostEvent \<Rightarrow> hostEvent" where
  "eraseEvent (ConnData c d now keyNow) = ConnData c (eraseTimestamp d) now keyNow"
| "eraseEvent e = e"

text \<open>The host without the two variables of the provider that store received
  timestamps: the latest message keeps everything but its timestamp.\<close>

definition timingView :: "host \<Rightarrow> host" where
  "timingView s =
     s\<lparr>latestMessage := map_option eraseTimestamp (latestMessage s), triggerEvents := []\<rparr>"

text \<open>The states a host passes through, one per event.\<close>

fun hostTrace :: "hostEvent list \<Rightarrow> host \<Rightarrow> host list" where
  "hostTrace [] s = []"
| "hostTrace (e # es) s = hostStep e s # hostTrace es (hostStep e s)"


text \<open>A gate at rest: the motion effect has nothing to act on.\<close>

definition gateStable :: "gate \<Rightarrow> bool" where
  "gateStable g = (\<not> (motionDetected g \<and> gateStatus g = GATE_ARMED))"

text \<open>What a RESET makes of a gate whose view is alive and at rest.\<close>

definition resetGate :: "error option \<times> gate \<Rightarrow> error option \<times> gate" where
  "resetGate eg =
     (case fst eg of
        Some e \<Rightarrow> eg
      | None \<Rightarrow> (None, (snd eg)\<lparr>latestMessage := Some \<lparr>type = RESET, payload = None\<rparr>, gateStatus := LOBBY, isArmed := False\<rparr>))"

text \<open>The timer invariant of a view: handles are never 0, and \<^verbatim>\<open>timerInterval\<close> holds a handle
  exactly in RUNNING, where no interval timer is alive but possibly the one with that
  handle, which measures from \<^verbatim>\<open>startTime\<close>; in every other status no interval timer is
  alive. It is \<open>samplerInv\<close> without the promise that the timer of a running race is still
  alive: the cleanup of the first effect clears it on the render after the next.\<close>

definition timerOwned :: "host \<Rightarrow> bool" where
  "timerOwned s =
     (nextTimer s \<noteq> 0 \<and>
      (case timerInterval s of
         None \<Rightarrow> raceState s \<noteq> RUNNING \<and> intervals s = []
       | Some h \<Rightarrow> h \<noteq> 0 \<and> raceState s = RUNNING
                   \<and> (intervals s = [] \<or> intervals s = [(h, startTime s)])))"


section \<open>Concrete states and runs\<close>

text \<open>
  A host with two gates A and B, gates whose host has the id 4821, and the runs the
  theorems are instantiated at. Times are milliseconds on the clock of the device that
  reads them.
\<close>

definition connA :: dataConnection where "connA = \<lparr>connId = 1, peer = ''A''\<rparr>"

definition connB :: dataConnection where "connB = \<lparr>connId = 2, peer = ''B''\<rparr>"

definition peerA :: connectedPeer where
  "peerA = \<lparr>peerId = ''A'', conn = connA, peerRole = Some START, peerName = Some ''Start Gate''\<rparr>"

definition peerB :: connectedPeer where
  "peerB = \<lparr>peerId = ''B'', conn = connB, peerRole = Some FINISH, peerName = Some ''Finish Gate''\<rparr>"

definition hostIdle :: host where
  "hostIdle = host0\<lparr>peers := [peerA, peerB]\<rparr>"

definition hostRunning :: host where
  "hostRunning = hostIdle\<lparr>raceState := RUNNING, startTime := 5000, elapsedTime := 1990,
      timerInterval := Some 1, intervals := [(1, 5000)], nextTimer := 2\<rparr>"

definition hostNoStart :: host where
  "hostNoStart = host0\<lparr>peers := [peerB], raceState := FINISHED, elapsedTime := 4000\<rparr>"

definition triggerMessage :: "role \<Rightarrow> int \<Rightarrow> peerData" where
  "triggerMessage r t = \<lparr>type = TRIGGER, payload = Some (emptyPayload\<lparr>role := Some r, timestamp := Some t\<rparr>)\<rparr>"

definition raceEvents :: "hostEvent list" where
  "raceEvents =
     [ConnOpen connA, ConnOpen connB, SetRole ''A'' (Some START), SetRole ''B'' (Some FINISH), ArmButton,
      ConnData connA (triggerMessage START 1000) 5000 5000, Tick 5010,
      ConnData connB (triggerMessage FINISH 5000) 9000 9000]"

definition client0 :: peerService where
  "client0 = \<lparr>peers = [], hostConnection = None, latestMessage = None,
              triggerEvents = [], sent = []\<rparr>"

definition swapEvents :: "hostEvent list" where
  "swapEvents = [ConnOpen connA, ConnOpen connB, SetRole ''A'' (Some START), SetRole ''B'' (Some START)]"

definition connA2 :: dataConnection where "connA2 = \<lparr>connId = 3, peer = ''A''\<rparr>"

definition twiceEvents :: "hostEvent list" where
  "twiceEvents = [ConnOpen connA, ConnOpen connA2, SetRole ''A'' (Some START)]"

definition raceEventsShifted :: "hostEvent list" where
  "raceEventsShifted =
     [ConnOpen connA, ConnOpen connB, SetRole ''A'' (Some START), SetRole ''B'' (Some FINISH), ArmButton,
      ConnData connA (triggerMessage START 777777) 5000 5000, Tick 5010,
      ConnData connB (triggerMessage FINISH 1) 9000 9000]"


definition armedMessage :: peerData where
  "armedMessage = \<lparr>type = STATE_CHANGE,
      payload = Some \<lparr>name = None, role = None, state = Some ''ARMED'', timestamp = None, raceId = None\<rparr>\<rparr>"



definition hostBuffered :: host where
  "hostBuffered = hostRun raceEvents host0"

definition gatesAB :: "dataConnection \<Rightarrow> error option \<times> gate" where
  "gatesAB c =
     (if c = connA
      then gateRun [Receive ''4821'' (roleAssign (Some START)) 50, Receive ''4821'' armedMessage 100] gate0
      else gateRun [Receive ''4821'' (roleAssign (Some FINISH)) 60] gate0)"

definition viewEvents :: "viewEvent list" where
  "viewEvents =
     [Callback (ConnOpen connA), Render 100 100, Callback (ConnOpen connB), Render 200 200,
      Callback (SetRole ''A'' (Some START)), Render 300 300,
      Callback (SetRole ''B'' (Some FINISH)), Render 400 400,
      Callback ArmButton, Render 4000 4000,
      Callback (ConnData connA (triggerMessage START 1000) 4999 4999), Render 5000 5000,
      Render 5001 5001, Callback (Tick 5010), Render 5011 5011]"

definition viewRunning :: "host \<times> nat option" where
  "viewRunning = viewRun viewEvents view0"

definition lateStartEvents :: "viewEvent list" where
  "lateStartEvents =
     [Callback (ConnOpen connA), Render 100 100,
      Callback (SetRole ''A'' (Some START)), Render 300 300,
      Callback (ConnData connA (triggerMessage START 1000) 1999 1999), Render 2000 2000]"

definition earlyFinishEvents :: "viewEvent list" where
  "earlyFinishEvents =
     [Callback (ConnOpen connA), Render 100 100,
      Callback (SetRole ''A'' (Some START)), Render 300 300,
      Callback ArmButton, Render 1000 1000,
      Callback (ConnData connA (triggerMessage FINISH 1500) 1999 1999), Render 2000 2000,
      Render 2010 2010]"

text \<open>
  The trigger of a gate whose role is \<^verbatim>\<open>GateRole.SPLIT\<close>, that is \<^verbatim>\<open>undefined\<close>: a TRIGGER that
  carries no role.
\<close>

definition splitMessage :: peerData where
  "splitMessage = \<lparr>type = TRIGGER,
      payload = Some \<lparr>name = None, role = None, state = None, timestamp = Some 7000, raceId = None\<rparr>\<rparr>"

definition splitEvents :: "viewEvent list" where
  "splitEvents =
     [Callback (ConnData connB splitMessage 6999 6999), Render 7000 7001,
      Render 7010 7011, Render 7020 7021]"

section \<open>Lemmas about the handlers\<close>

lemma foldl_send:
  "foldl (\<lambda>acc p. send (conn p) m acc) s ps = s\<lparr>sent := sent s @ map (\<lambda>p. (conn p, m)) ps\<rparr>"
  by (induction ps arbitrary: s) (simp_all add: send_def)

lemma broadcastState_eq:
  "broadcastState st rid s = s\<lparr>sent := sent s @ map (\<lambda>p. (conn p, stateChange st rid)) (peers s)\<rparr>"
  by (simp add: broadcastState_def foldl_send)

lemma sendReset_eq:
  "sendReset s = s\<lparr>sent := sent s @ map (\<lambda>p. (conn p, resetMessage)) (peers s)\<rparr>"
  by (simp add: sendReset_def foldl_send)

lemma broadcastReset_eq:
  "broadcastReset s =
     s\<lparr>sent := sent s @ map (\<lambda>p. (conn p, resetMessage)) (peers s), triggerEvents := []\<rparr>"
  by (simp add: broadcastReset_def sendReset_eq)

lemma foldl_elapsed:
  "foldl (\<lambda>acc iv. acc\<lparr>elapsedTime := now - snd iv\<rparr>) s ivs =
     (if ivs = [] then s else s\<lparr>elapsedTime := now - snd (last ivs)\<rparr>)"
  by (induction ivs arbitrary: s) simp_all

lemma tick_eq:
  "tick now s = (if intervals s = [] then s else s\<lparr>elapsedTime := now - snd (last (intervals s))\<rparr>)"
  by (simp add: tick_def foldl_elapsed)

lemma assignRole_eq:
  "assignRole pid r s =
     s\<lparr>peers := map (\<lambda>p. if peerId p = pid then p\<lparr>peerRole := r\<rparr> else p) (peers s),
       sent := sent s @
         (case find (\<lambda>p. peerId p = pid) (map (\<lambda>p. if peerId p = pid then p\<lparr>peerRole := r\<rparr> else p) (peers s)) of
            Some p \<Rightarrow> [(conn p, \<lparr>type = ROLE_ASSIGN, payload = Some (emptyPayload\<lparr>role := r\<rparr>)\<rparr>)]
          | None \<Rightarrow> [])\<rparr>"
  by (simp add: assignRole_def send_def Let_def split: option.split)

lemma peers_assignRole:
  "peers (assignRole pid r s) = map (\<lambda>p. if peerId p = pid then p\<lparr>peerRole := r\<rparr> else p) (peers s)"
  by (simp add: assignRole_eq)

lemma clearRoles_empty: "clearRoles {} ps = ps"
  by (simp add: clearRoles_def)

lemma clearRoles_clearRoles: "clearRoles I (clearRoles J ps) = clearRoles (I \<union> J) ps"
  by (induction ps) (simp_all add: clearRoles_def)

lemma assignRole_NONE_clearRoles: "peers (assignRole i (Some NONE) s) = clearRoles {i} (peers s)"
  by (simp add: peers_assignRole clearRoles_def)

lemma peers_clearFold:
  "peers (foldl (\<lambda>acc p. if peerRole p = r \<and> peerId p \<noteq> pid then assignRole (peerId p) (Some NONE) acc else acc) s xs)
   = clearRoles {peerId x |x. x \<in> set xs \<and> peerRole x = r \<and> peerId x \<noteq> pid} (peers s)"
proof (induction xs arbitrary: s)
  case Nil
  show ?case by (simp add: clearRoles_empty)
next
  case (Cons x xs)
  let ?I = "{peerId y |y. y \<in> set xs \<and> peerRole y = r \<and> peerId y \<noteq> pid}"
  show ?case
  proof (cases "peerRole x = r \<and> peerId x \<noteq> pid")
    case True
    then have "{peerId y |y. y \<in> set (x # xs) \<and> peerRole y = r \<and> peerId y \<noteq> pid} = ?I \<union> {peerId x}"
      by auto
    with True show ?thesis
      by (simp add: Cons.IH assignRole_NONE_clearRoles clearRoles_clearRoles)
  next
    case False
    then have "{peerId y |y. y \<in> set (x # xs) \<and> peerRole y = r \<and> peerId y \<noteq> pid} = ?I"
      by auto
    with False show ?thesis
      by (auto simp add: Cons.IH)
  qed
qed

lemma peers_setRole: "peers (setRole pid r s) = map (setRolePeer pid r (peers s)) (peers s)"
proof -
  define I where "I = {peerId x |x. x \<in> set (peers s) \<and> peerRole x = r \<and> peerId x \<noteq> pid}"
  define A where "A = (\<lambda>p::connectedPeer. if peerId p = pid then p\<lparr>peerRole := r\<rparr> else p)"
  define C where "C = (\<lambda>p::connectedPeer. if peerId p \<in> I then p\<lparr>peerRole := Some NONE\<rparr> else p)"
  have step: "peers (setRole pid r s) = map A (map C (peers s))"
    unfolding A_def C_def I_def
    by (simp only: setRole_def peers_assignRole peers_clearFold clearRoles_def)
  have point: "A (C p) = setRolePeer pid r (peers s) p" for p
  proof (cases "peerId p = pid")
    case True
    then show ?thesis by (simp add: A_def C_def setRolePeer_def)
  next
    case False
    have mem: "peerId p \<in> I \<longleftrightarrow> (\<exists>x\<in>set (peers s). peerRole x = r \<and> peerId x = peerId p)"
      using False unfolding I_def by (auto; metis)
    show ?thesis
    proof (cases "peerId p \<in> I")
      case True
      with False mem show ?thesis by (simp add: A_def C_def setRolePeer_def)
    next
      case notI: False
      with mem have "\<not> (\<exists>x\<in>set (peers s). peerRole x = r \<and> peerId x = peerId p)" by simp
      with False notI show ?thesis by (auto simp add: A_def C_def setRolePeer_def)
    qed
  qed
  show ?thesis
    unfolding step map_map by (rule map_cong [OF refl]) (simp add: point)
qed

lemma peerId_setRolePeer: "peerId (setRolePeer pid r ps p) = peerId p"
  by (simp add: setRolePeer_def)

lemma peerRole_setRolePeer_target: "peerId p = pid \<Longrightarrow> peerRole (setRolePeer pid r ps p) = r"
  by (simp add: setRolePeer_def)

lemma peerRole_setRolePeer_other:
  assumes "peerId p \<noteq> pid" "p \<in> set ps" "peerRole (setRolePeer pid r ps p) \<noteq> Some NONE"
  shows "peerRole (setRolePeer pid r ps p) = peerRole p \<and> peerRole p \<noteq> r"
proof (cases "\<exists>x\<in>set ps. peerRole x = r \<and> peerId x = peerId p")
  case True
  with assms show ?thesis by (simp add: setRolePeer_def)
next
  case False
  with assms(2) have "peerRole p \<noteq> r" by blast
  with False assms(1) show ?thesis by (auto simp add: setRolePeer_def)
qed

lemma roleExclusive_setRole:
  assumes ex: "roleExclusive (peers s)"
  shows "roleExclusive (peers (setRole pid r s))"
  unfolding roleExclusive_def
proof (intro ballI impI)
  fix p' q'
  assume p': "p' \<in> set (peers (setRole pid r s))" and q': "q' \<in> set (peers (setRole pid r s))"
    and h: "peerRole p' \<noteq> Some NONE \<and> peerRole p' = peerRole q'"
  from p' obtain p where p: "p \<in> set (peers s)" "p' = setRolePeer pid r (peers s) p"
    by (auto simp: peers_setRole)
  from q' obtain q where q: "q \<in> set (peers s)" "q' = setRolePeer pid r (peers s) q"
    by (auto simp: peers_setRole)
  show "peerId p' = peerId q'"
  proof (cases "peerId p = pid")
    case pT: True
    show ?thesis
    proof (cases "peerId q = pid")
      case True
      with pT p q show ?thesis by (simp add: peerId_setRolePeer)
    next
      case False
      from pT p have "peerRole p' = r" by (simp add: peerRole_setRolePeer_target)
      moreover from False q h have "peerRole q' \<noteq> r"
        using peerRole_setRolePeer_other [of q pid "peers s" r] by auto
      ultimately show ?thesis using h by simp
    qed
  next
    case pF: False
    show ?thesis
    proof (cases "peerId q = pid")
      case True
      from True q have "peerRole q' = r" by (simp add: peerRole_setRolePeer_target)
      moreover from pF p h have "peerRole p' \<noteq> r"
        using peerRole_setRolePeer_other [of p pid "peers s" r] by auto
      ultimately show ?thesis using h by simp
    next
      case False
      from pF p h have 1: "peerRole p' = peerRole p"
        using peerRole_setRolePeer_other [of p pid "peers s" r] by auto
      from False q h have 2: "peerRole q' = peerRole q"
        using peerRole_setRolePeer_other [of q pid "peers s" r] by auto
      from ex p(1) q(1) h 1 2 have "peerId p = peerId q"
        unfolding roleExclusive_def by metis
      with p q show ?thesis by (simp add: peerId_setRolePeer)
    qed
  qed
qed

lemma setRole_clears:
  assumes "q \<in> set (peers (setRole pid r s))" "r \<noteq> Some NONE"
  shows "peerRole q = r \<longleftrightarrow> peerId q = pid"
proof -
  from assms(1) obtain p where p: "p \<in> set (peers s)" "q = setRolePeer pid r (peers s) p"
    by (auto simp: peers_setRole)
  show ?thesis
  proof (cases "peerId p = pid")
    case True
    with p show ?thesis by (simp add: peerId_setRolePeer peerRole_setRolePeer_target)
  next
    case False
    have "peerRole q \<noteq> r"
    proof
      assume "peerRole q = r"
      with assms(2) p False show False
        using peerRole_setRolePeer_other [of p pid "peers s" r] by auto
    qed
    with False p show ?thesis by (simp add: peerId_setRolePeer)
  qed
qed

lemma clearFold_frame:
  fixes s :: host
  shows "foldl (\<lambda>acc p. if peerRole p = r \<and> peerId p \<noteq> pid then assignRole (peerId p) (Some NONE) acc else acc) s xs
   = s\<lparr>peers := peers (foldl (\<lambda>acc p. if peerRole p = r \<and> peerId p \<noteq> pid then assignRole (peerId p) (Some NONE) acc else acc) s xs),
       sent := sent (foldl (\<lambda>acc p. if peerRole p = r \<and> peerId p \<noteq> pid then assignRole (peerId p) (Some NONE) acc else acc) s xs)\<rparr>"
proof (induction xs arbitrary: s)
  case Nil
  show ?case by simp
next
  case (Cons x xs)
  let ?f = "\<lambda>acc p. if peerRole p = r \<and> peerId p \<noteq> pid then assignRole (peerId p) (Some NONE) acc else acc"
  obtain P S where fx: "?f s x = s\<lparr>peers := P, sent := S\<rparr>"
  proof (cases "peerRole x = r \<and> peerId x \<noteq> pid")
    case True
    then have "?f s x = s\<lparr>peers := peers (assignRole (peerId x) (Some NONE) s), sent := sent (assignRole (peerId x) (Some NONE) s)\<rparr>"
      by (simp add: assignRole_eq)
    then show ?thesis by (rule that)
  next
    case False
    then have "?f s x = s\<lparr>peers := peers s, sent := sent s\<rparr>" by auto
    then show ?thesis by (rule that)
  qed
  have "foldl ?f s (x # xs) = foldl ?f (?f s x) xs" by simp
  also have "\<dots> = (?f s x)\<lparr>peers := peers (foldl ?f (?f s x) xs), sent := sent (foldl ?f (?f s x) xs)\<rparr>"
    by (rule Cons.IH)
  also have "\<dots> = s\<lparr>peers := peers (foldl ?f (?f s x) xs), sent := sent (foldl ?f (?f s x) xs)\<rparr>"
    by (simp add: fx)
  finally show ?case by simp
qed

lemma setRole_frame:
  "setRole pid r s = s\<lparr>peers := peers (setRole pid r s), sent := sent (setRole pid r s)\<rparr>"
proof -
  let ?f = "\<lambda>acc p. if peerRole p = r \<and> peerId p \<noteq> pid then assignRole (peerId p) (Some NONE) acc else acc"
  obtain P S where c: "foldl ?f s (peers s) = s\<lparr>peers := P, sent := S\<rparr>"
    using clearFold_frame [of r pid s "peers s"] by blast
  have "setRole pid r s = assignRole pid r (s\<lparr>peers := P, sent := S\<rparr>)"
    by (simp add: setRole_def c)
  then obtain P' S' where "setRole pid r s = s\<lparr>peers := P', sent := S'\<rparr>"
    by (simp add: assignRole_eq)
  then show ?thesis by simp
qed

lemma setRole_fields:
  "raceState (setRole pid r s) = raceState s"
  "startTime (setRole pid r s) = startTime s"
  "elapsedTime (setRole pid r s) = elapsedTime s"
  "timerInterval (setRole pid r s) = timerInterval s"
  "intervals (setRole pid r s) = intervals s"
  "nextTimer (setRole pid r s) = nextTimer s"
  by (subst setRole_frame, simp)+

lemma samplerInv_setRole: "samplerInv (setRole pid r s) = samplerInv s"
  by (simp add: samplerInv_def setRole_fields cong: option.case_cong)

lemma samplerInv_handleTrigger:
  "samplerInv s \<Longrightarrow> samplerInv (handleTrigger r ts now keyNow s)"
  by (auto simp: samplerInv_def handleTrigger_def startTimer_def stopTimer_def updateRaceStatus_def
        broadcastState_eq split: option.splits)

lemma samplerInv_triggerEffect:
  "samplerInv s \<Longrightarrow> samplerInv (triggerEffect now keyNow s)"
  by (simp add: triggerEffect_def samplerInv_handleTrigger split: option.splits)

lemma samplerInv_peerService_upd:
  "samplerInv (s\<lparr>peers := P\<rparr>) = samplerInv s"
  "samplerInv (s\<lparr>latestMessage := L\<rparr>) = samplerInv s"
  "samplerInv (s\<lparr>triggerEvents := T\<rparr>) = samplerInv s"
  "samplerInv (s\<lparr>sent := S\<rparr>) = samplerInv s"
  "samplerInv (s\<lparr>currentRace := R\<rparr>) = samplerInv s"
  "samplerInv (s\<lparr>elapsedTime := E\<rparr>) = samplerInv s"
  by (simp_all add: samplerInv_def cong: option.case_cong)

lemma samplerInv_connData: "samplerInv s \<Longrightarrow> samplerInv (connData c d s)"
  by (simp add: connData_def handleMessage_def samplerInv_peerService_upd Let_def
        split: option.splits prod.splits)

lemma samplerInv_armButton: "samplerInv s \<Longrightarrow> samplerInv (armButton s)"
  by (auto simp: samplerInv_def armButton_def armSystem_def updateRaceStatus_def broadcastState_eq
        split: option.splits)

lemma samplerInv_cancelButton: "samplerInv s \<Longrightarrow> samplerInv (cancelButton s)"
  by (auto simp: samplerInv_def cancelButton_def cancelRace_def stopTimer_def updateRaceStatus_def
        broadcastState_eq split: option.splits)

lemma samplerInv_step: "samplerInv s \<Longrightarrow> samplerInv (hostStep e s)"
proof (cases e)
  case (ConnData c d now keyNow)
  assume "samplerInv s"
  with ConnData show ?thesis
    by (simp add: samplerInv_connData samplerInv_triggerEffect)
next
  case (RoleButton r)
  assume "samplerInv s"
  with RoleButton show ?thesis
    by (simp add: roleButton_def samplerInv_setRole split: option.splits)
next
  case (Tick now)
  assume "samplerInv s"
  with Tick show ?thesis
    by (simp add: tick_eq samplerInv_peerService_upd)
qed (simp_all add: connOpen_def connClose_def connError_def samplerInv_peerService_upd
      samplerInv_setRole samplerInv_armButton samplerInv_cancelButton samplerInv_triggerEffect
      resetButton_def broadcastReset_eq)

lemma hostRun_Nil: "hostRun [] s = s"
  by (simp add: hostRun_def)

lemma hostRun_Cons: "hostRun (e # es) s = hostRun es (hostStep e s)"
  by (simp add: hostRun_def)

lemma samplerInv_hostRun: "samplerInv s \<Longrightarrow> samplerInv (hostRun evs s)"
  by (induction evs arbitrary: s) (simp_all add: hostRun_Nil hostRun_Cons samplerInv_step)

lemma samplerInv_host0: "samplerInv host0"
  by (simp add: samplerInv_def host0_def)

declare natToString.simps [simp del]

lemma handleMessage_eq:
  "handleMessage d sender s = s\<lparr>latestMessage := Some d, triggerEvents := triggerEvents (handleMessage d sender s)\<rparr>"
  by (simp add: handleMessage_def Let_def split: option.split prod.split)


lemma handleTrigger_commute:
  "handleTrigger r ts now k (s\<lparr>latestMessage := L, triggerEvents := T\<rparr>)
   = (handleTrigger r ts' now k s)\<lparr>latestMessage := L, triggerEvents := T\<rparr>"
  by (simp add: handleTrigger_def startTimer_def stopTimer_def updateRaceStatus_def broadcastState_eq
        split: option.split)


lemma armSystem_eq:
  "armSystem s =
     (case currentRace s of
        None \<Rightarrow> s\<lparr>raceState := ARMED, elapsedTime := 0, preciseTime := None,
                 sent := sent s @ map (\<lambda>p. (conn p, stateChange ''ARMED'' (currentRace s))) (peers s)\<rparr>
      | Some _ \<Rightarrow> s\<lparr>raceState := ARMED, elapsedTime := 0, preciseTime := None,
                 sent := sent s @ map (\<lambda>p. (conn p, stateChange ''ARMED'' (currentRace s))) (peers s),
                 dbCalls := dbCalls s @ [''armed'']\<rparr>)"
  by (simp add: armSystem_def updateRaceStatus_def broadcastState_eq split: option.split)

lemma stopTimer_inv:
  "samplerInv s \<Longrightarrow> stopTimer s = s\<lparr>intervals := [], timerInterval := None\<rparr>"
  by (auto simp: samplerInv_def stopTimer_def split: option.splits)

lemma samplerInv_hostRunning: "samplerInv hostRunning"
  by (simp add: samplerInv_def hostRunning_def hostIdle_def host0_def)

lemma cancelRace_inv:
  assumes "samplerInv s"
  shows "raceState (cancelRace s) = IDLE \<and> intervals (cancelRace s) = []
       \<and> timerInterval (cancelRace s) = None \<and> elapsedTime (cancelRace s) = 0"
  by (simp add: cancelRace_def updateRaceStatus_def broadcastState_eq stopTimer_inv [OF assms]
        split: option.split)

lemma peers_handleTrigger: "peers (handleTrigger r ts now k s) = peers s"
  by (simp add: handleTrigger_def startTimer_def stopTimer_def updateRaceStatus_def broadcastState_eq
        split: option.split)

lemma peers_triggerEffect: "peers (triggerEffect now k s) = peers s"
  by (simp add: triggerEffect_def peers_handleTrigger split: option.split)

lemma peers_handleMessage: "peers (handleMessage d sender s) = peers s"
  by (subst handleMessage_eq) simp

lemma peers_armButton: "peers (armButton s) = peers s"
  by (simp add: armButton_def armSystem_eq split: option.split)

lemma peers_cancelButton: "peers (cancelButton s) = peers s"
  by (simp add: cancelButton_def cancelRace_def stopTimer_def updateRaceStatus_def broadcastState_eq
        split: option.split)

lemma peers_resetButton: "peers (resetButton s) = peers s"
  by (simp add: resetButton_def broadcastReset_eq)

lemma peers_tick: "peers (tick now s) = peers s"
  by (simp add: tick_eq)

lemma roleExclusive_append_NONE:
  assumes "roleExclusive ps" "peerRole x = Some NONE"
  shows "roleExclusive (ps @ [x])"
  using assms unfolding roleExclusive_def by auto

lemma roleExclusive_filter: "roleExclusive ps \<Longrightarrow> roleExclusive (filter P ps)"
  unfolding roleExclusive_def by auto

lemma roleExclusive_rename:
  assumes "roleExclusive ps" "\<And>p. peerId (g p) = peerId p" "\<And>p. peerRole (g p) = peerRole p"
  shows "roleExclusive (map g ps)"
  using assms unfolding roleExclusive_def by auto

lemma roleExclusive_connData:
  assumes "roleExclusive (peers s)"
  shows "roleExclusive (peers (connData c d s))"
proof (cases "type d = JOIN")
  case True
  have "roleExclusive (map (\<lambda>p. if peerId p = peer c
                                then (case joinName d of Some n \<Rightarrow> p\<lparr>peerName := Some n\<rparr> | None \<Rightarrow> p)
                                else p) (peers s))"
    by (rule roleExclusive_rename [OF assms]) (simp_all split: option.split)
  with True show ?thesis by (simp add: connData_def)
next
  case False
  with assms show ?thesis by (simp add: connData_def peers_handleMessage)
qed

lemma roleExclusive_step:
  assumes "roleExclusive (peers s)"
  shows "roleExclusive (peers (hostStep e s))"
proof (cases e)
  case (ConnOpen c)
  with assms show ?thesis by (simp add: connOpen_def roleExclusive_append_NONE)
next
  case (ConnData c d now k)
  with assms show ?thesis by (simp add: peers_triggerEffect roleExclusive_connData)
next
  case (ConnClose c)
  with assms show ?thesis by (simp add: connClose_def roleExclusive_filter)
next
  case (ConnError c)
  with assms show ?thesis by (simp add: connError_def roleExclusive_filter)
next
  case (SetRole pid r)
  with assms show ?thesis by (simp add: roleExclusive_setRole)
next
  case (RoleButton r)
  with assms show ?thesis by (simp add: roleButton_def roleExclusive_setRole split: option.split)
qed (simp_all add: assms peers_armButton peers_cancelButton peers_resetButton peers_tick peers_triggerEffect)

lemma roleExclusive_hostRun:
  "roleExclusive (peers s) \<Longrightarrow> roleExclusive (peers (hostRun evs s))"
  by (induction evs arbitrary: s) (simp_all add: hostRun_Nil hostRun_Cons roleExclusive_step)

lemma holders_le_one:
  assumes "roleExclusive ps" "distinct (map peerId ps)" "r \<noteq> Some NONE"
  shows "length (holders r ps) \<le> 1"
proof (rule ccontr)
  assume "\<not> length (holders r ps) \<le> 1"
  then obtain p q rest where pq: "holders r ps = p # q # rest"
    by (cases "holders r ps"; cases "tl (holders r ps)") auto
  have d: "distinct (map peerId (holders r ps))"
    unfolding holders_def using assms(2) by (rule distinct_map_filter)
  have "p \<in> set (holders r ps)" "q \<in> set (holders r ps)" using pq by simp_all
  then have mem: "p \<in> set ps" "q \<in> set ps" and rl: "peerRole p = r" "peerRole q = r"
    by (simp_all add: holders_def)
  from assms(1) mem have "peerRole p \<noteq> Some NONE \<and> peerRole p = peerRole q \<longrightarrow> peerId p = peerId q"
    unfolding roleExclusive_def by blast
  with rl assms(3) have "peerId p = peerId q" by simp
  with d pq show False by simp
qed

lemma targetMessage_map:
  assumes "\<And>p. peerId (g p) = peerId p" "\<And>p. conn (g p) = conn p"
  shows "targetMessage pid m (map g ps) = targetMessage pid m ps"
  by (induction ps) (simp_all add: targetMessage_def assms)

lemma sent_assignRole:
  "sent (assignRole pid r s) = sent s @ targetMessage pid (roleAssign r) (peers s)"
proof -
  have "targetMessage pid (roleAssign r) (map (\<lambda>p. if peerId p = pid then p\<lparr>peerRole := r\<rparr> else p) (peers s))
        = targetMessage pid (roleAssign r) (peers s)"
    by (rule targetMessage_map) simp_all
  then show ?thesis
    by (simp add: assignRole_eq targetMessage_def roleAssign_def)
qed

lemma targetMessage_assignRole:
  "targetMessage i m (peers (assignRole j r s)) = targetMessage i m (peers s)"
  unfolding peers_assignRole by (rule targetMessage_map) simp_all

lemma targetMessage_clearFold:
  "targetMessage i m (peers (foldl (\<lambda>acc p. if peerRole p = r \<and> peerId p \<noteq> pid then assignRole (peerId p) (Some NONE) acc else acc) s xs))
   = targetMessage i m (peers s)"
  unfolding peers_clearFold clearRoles_def by (rule targetMessage_map) simp_all

lemma sent_clearFold:
  "sent (foldl (\<lambda>acc p. if peerRole p = r \<and> peerId p \<noteq> pid then assignRole (peerId p) (Some NONE) acc else acc) s xs)
   = sent s @ concat (map (\<lambda>x. targetMessage (peerId x) (roleAssign (Some NONE)) (peers s)) (otherHolders pid r xs))"
proof (induction xs arbitrary: s)
  case Nil
  show ?case by (simp add: otherHolders_def)
next
  case (Cons x xs)
  let ?f = "\<lambda>acc p. if peerRole p = r \<and> peerId p \<noteq> pid then assignRole (peerId p) (Some NONE) acc else acc"
  show ?case
  proof (cases "peerRole x = r \<and> peerId x \<noteq> pid")
    case True
    then have fx: "?f s x = assignRole (peerId x) (Some NONE) s" by simp
    have "sent (foldl ?f s (x # xs)) = sent (foldl ?f (assignRole (peerId x) (Some NONE) s) xs)"
      by (simp only: foldl_Cons fx)
    also have "\<dots> = sent (assignRole (peerId x) (Some NONE) s)
        @ concat (map (\<lambda>y. targetMessage (peerId y) (roleAssign (Some NONE)) (peers s)) (otherHolders pid r xs))"
      by (simp only: Cons.IH targetMessage_assignRole)
    also have "\<dots> = sent s @ concat (map (\<lambda>y. targetMessage (peerId y) (roleAssign (Some NONE)) (peers s))
        (otherHolders pid r (x # xs)))"
      using True by (simp add: sent_assignRole otherHolders_def)
    finally show ?thesis .
  next
    case False
    then have fx: "?f s x = s" by auto
    have "sent (foldl ?f s (x # xs)) = sent (foldl ?f s xs)"
      by (simp only: foldl_Cons fx)
    also have "\<dots> = sent s @ concat (map (\<lambda>y. targetMessage (peerId y) (roleAssign (Some NONE)) (peers s))
        (otherHolders pid r (x # xs)))"
      using False by (auto simp add: Cons.IH otherHolders_def)
    finally show ?thesis .
  qed
qed

lemma sent_setRole:
  "sent (setRole pid r s)
   = sent s @ concat (map (\<lambda>x. targetMessage (peerId x) (roleAssign (Some NONE)) (peers s)) (otherHolders pid r (peers s)))
       @ targetMessage pid (roleAssign r) (peers s)"
  by (simp only: setRole_def sent_assignRole sent_clearFold targetMessage_clearFold append_assoc)

lemma find_distinct:
  assumes "distinct (map peerId ps)" "x \<in> set ps"
  shows "find (\<lambda>p. peerId p = peerId x) ps = Some x"
  using assms by (induction ps) auto

lemma targetMessage_distinct:
  assumes "distinct (map peerId ps)"
  shows "targetMessage pid m ps = map (\<lambda>x. (conn x, m)) (filter (\<lambda>x. peerId x = pid) ps)"
  using assms
proof (induction ps)
  case Nil
  show ?case by (simp add: targetMessage_def)
next
  case (Cons p ps)
  show ?case
  proof (cases "peerId p = pid")
    case True
    have "peerId x \<noteq> pid" if "x \<in> set ps" for x
    proof
      assume "peerId x = pid"
      with that True have "peerId p \<in> peerId ` set ps" by (metis imageI)
      with Cons.prems show False by simp
    qed
    then have "filter (\<lambda>x. peerId x = pid) ps = []"
      by (simp add: filter_empty_conv)
    with True show ?thesis by (simp add: targetMessage_def)
  next
    case False
    with Cons show ?thesis by (simp add: targetMessage_def)
  qed
qed

lemma clears_distinct:
  assumes "distinct (map peerId ps)"
  shows "concat (map (\<lambda>x. targetMessage (peerId x) m ps) (otherHolders pid r ps))
         = map (\<lambda>x. (conn x, m)) (otherHolders pid r ps)"
proof -
  have eq: "map (\<lambda>x. targetMessage (peerId x) m ps) (otherHolders pid r ps)
        = map (\<lambda>x. [(conn x, m)]) (otherHolders pid r ps)"
    by (rule map_cong [OF refl]) (simp add: otherHolders_def targetMessage_def find_distinct [OF assms])
  show ?thesis unfolding eq by simp
qed

lemma setRole_clears_index:
  assumes "i < length (peers s)" "peerRole (peers s ! i) = r" "peerId (peers s ! i) \<noteq> pid"
  shows "peers (setRole pid r s) ! i = (peers s ! i)\<lparr>peerRole := Some NONE\<rparr>"
proof -
  have "peers s ! i \<in> set (peers s)" using assms(1) by simp
  with assms(2) have "\<exists>x\<in>set (peers s). peerRole x = r \<and> peerId x = peerId (peers s ! i)" by blast
  with assms show ?thesis by (simp add: peers_setRole setRolePeer_def)
qed

lemma eraseTimestamp_idem: "eraseTimestamp (eraseTimestamp d) = eraseTimestamp d"
  by (cases "payload d") (simp_all add: eraseTimestamp_def)

lemma timingView_upd:
  "timingView (s\<lparr>latestMessage := L, triggerEvents := T\<rparr>)
   = s\<lparr>latestMessage := map_option eraseTimestamp L, triggerEvents := []\<rparr>"
  by (simp add: timingView_def)

lemma timingView_commute:
  assumes "\<And>L T. f (s\<lparr>latestMessage := L, triggerEvents := T\<rparr>)
                 = (f s)\<lparr>latestMessage := L, triggerEvents := T\<rparr>"
  shows "timingView (f (timingView s)) = timingView (f s)"
proof -
  have "f (s\<lparr>latestMessage := latestMessage s, triggerEvents := triggerEvents s\<rparr>)
        = (f s)\<lparr>latestMessage := latestMessage s, triggerEvents := triggerEvents s\<rparr>"
    by (rule assms)
  then have fs: "f s = (f s)\<lparr>latestMessage := latestMessage s, triggerEvents := triggerEvents s\<rparr>"
    by simp
  have lm: "latestMessage (f s) = latestMessage s"
    by (subst fs) simp
  have "timingView (f (timingView s))
        = timingView ((f s)\<lparr>latestMessage := map_option eraseTimestamp (latestMessage s), triggerEvents := []\<rparr>)"
    by (simp add: timingView_def assms)
  also have "\<dots> = (f s)\<lparr>latestMessage := map_option eraseTimestamp (latestMessage s), triggerEvents := []\<rparr>"
    by (simp add: timingView_upd option.map_comp comp_def eraseTimestamp_idem)
  also have "\<dots> = timingView (f s)"
    by (simp add: timingView_def lm)
  finally show ?thesis .
qed

lemma assignRole_commute:
  "assignRole pid r (s\<lparr>latestMessage := L, triggerEvents := T\<rparr>)
   = (assignRole pid r s)\<lparr>latestMessage := L, triggerEvents := T\<rparr>"
  by (simp add: assignRole_eq)

lemma clearFold_commute:
  "foldl (\<lambda>acc p. if peerRole p = r \<and> peerId p \<noteq> pid then assignRole (peerId p) (Some NONE) acc else acc)
     (s\<lparr>latestMessage := L, triggerEvents := T\<rparr>) xs
   = (foldl (\<lambda>acc p. if peerRole p = r \<and> peerId p \<noteq> pid then assignRole (peerId p) (Some NONE) acc else acc) s xs)
       \<lparr>latestMessage := L, triggerEvents := T\<rparr>"
  by (induction xs arbitrary: s) (simp_all add: assignRole_commute)

lemma setRole_commute:
  "setRole pid r (s\<lparr>latestMessage := L, triggerEvents := T\<rparr>)
   = (setRole pid r s)\<lparr>latestMessage := L, triggerEvents := T\<rparr>"
  by (simp add: setRole_def clearFold_commute assignRole_commute)

lemma roleButton_commute:
  "roleButton r (s\<lparr>latestMessage := L, triggerEvents := T\<rparr>)
   = (roleButton r s)\<lparr>latestMessage := L, triggerEvents := T\<rparr>"
  by (simp add: roleButton_def setRole_commute split: option.split)

lemma armButton_commute:
  "armButton (s\<lparr>latestMessage := L, triggerEvents := T\<rparr>)
   = (armButton s)\<lparr>latestMessage := L, triggerEvents := T\<rparr>"
  by (simp add: armButton_def canStart_def armSystem_eq split: option.split)

lemma cancelButton_commute:
  "cancelButton (s\<lparr>latestMessage := L, triggerEvents := T\<rparr>)
   = (cancelButton s)\<lparr>latestMessage := L, triggerEvents := T\<rparr>"
  by (simp add: cancelButton_def cancelRace_def stopTimer_def updateRaceStatus_def broadcastState_eq
        split: option.split)

lemma tick_commute:
  "tick now (s\<lparr>latestMessage := L, triggerEvents := T\<rparr>)
   = (tick now s)\<lparr>latestMessage := L, triggerEvents := T\<rparr>"
  by (simp add: tick_eq)

lemma latestMessage_handleTrigger: "latestMessage (handleTrigger r ts now k s) = latestMessage s"
  by (simp add: handleTrigger_def startTimer_def stopTimer_def updateRaceStatus_def broadcastState_eq
        split: option.split)

lemma timingView_handleTrigger:
  "timingView (handleTrigger r ts now k s) = timingView (handleTrigger r ts' now k (timingView s))"
proof -
  have "handleTrigger r ts' now k (timingView s)
        = (handleTrigger r ts now k s)
            \<lparr>latestMessage := map_option eraseTimestamp (latestMessage s), triggerEvents := []\<rparr>"
    unfolding timingView_def by (rule handleTrigger_commute)
  then show ?thesis
    by (simp add: timingView_upd timingView_def latestMessage_handleTrigger option.map_comp comp_def
          eraseTimestamp_idem)
qed

lemma timingView_idem: "timingView (timingView s) = timingView s"
  by (simp add: timingView_def option.map_comp comp_def eraseTimestamp_idem)

lemma timingView_triggerEffect:
  "timingView (triggerEffect now k (timingView s)) = timingView (triggerEffect now k s)"
proof (cases "latestMessage s")
  case None
  then show ?thesis by (simp add: triggerEffect_def timingView_def)
next
  case (Some msg)
  show ?thesis
  proof (cases "type msg = TRIGGER")
    case False
    with Some show ?thesis
      by (simp add: triggerEffect_def timingView_def eraseTimestamp_def option.map_comp comp_def)
  next
    case True
    show ?thesis
    proof (cases "payload msg")
      case None
      with Some True show ?thesis
        by (simp add: triggerEffect_def timingView_def eraseTimestamp_def option.map_comp comp_def)
    next
      case (Some p)
      have l: "triggerEffect now k s = handleTrigger (role p) (timestamp p) now k s"
        using \<open>latestMessage s = Some msg\<close> True Some by (simp add: triggerEffect_def)
      have "latestMessage (timingView s) = Some (eraseTimestamp msg)"
        using \<open>latestMessage s = Some msg\<close> by (simp add: timingView_def)
      then have r: "triggerEffect now k (timingView s) = handleTrigger (role p) None now k (timingView s)"
        using True Some by (simp add: triggerEffect_def eraseTimestamp_def)
      show ?thesis
        unfolding l r by (rule timingView_handleTrigger [symmetric])
    qed
  qed
qed

lemma timingView_handleMessage:
  "timingView (handleMessage d sender s) = s\<lparr>latestMessage := Some (eraseTimestamp d), triggerEvents := []\<rparr>"
  by (subst handleMessage_eq) (simp add: timingView_def)

lemma triggerEffect_cong:
  assumes "timingView s = timingView s'"
  shows "timingView (triggerEffect now k s) = timingView (triggerEffect now k s')"
  using timingView_triggerEffect [of now k s] timingView_triggerEffect [of now k s'] assms by simp

lemma view_connOpen: "timingView (connOpen c (timingView s)) = timingView (connOpen c s)"
  by (rule timingView_commute) (simp add: connOpen_def)

lemma view_connClose: "timingView (connClose c (timingView s)) = timingView (connClose c s)"
  by (rule timingView_commute) (simp add: connClose_def)

lemma view_connError: "timingView (connError c (timingView s)) = timingView (connError c s)"
  by (rule timingView_commute) (simp add: connError_def)

lemma view_connData_JOIN:
  "type d = JOIN \<Longrightarrow> timingView (connData c d (timingView s)) = timingView (connData c d s)"
  by (rule timingView_commute) (simp add: connData_def)

lemma view_setRole: "timingView (setRole pid r (timingView s)) = timingView (setRole pid r s)"
  by (rule timingView_commute) (rule setRole_commute)

lemma view_roleButton: "timingView (roleButton r (timingView s)) = timingView (roleButton r s)"
  by (rule timingView_commute) (rule roleButton_commute)

lemma view_armButton: "timingView (armButton (timingView s)) = timingView (armButton s)"
  by (rule timingView_commute) (rule armButton_commute)

lemma view_cancelButton: "timingView (cancelButton (timingView s)) = timingView (cancelButton s)"
  by (rule timingView_commute) (rule cancelButton_commute)

lemma view_tick: "timingView (tick now (timingView s)) = timingView (tick now s)"
  by (rule timingView_commute) (rule tick_commute)

lemma view_resetButton: "timingView (resetButton (timingView s)) = timingView (resetButton s)"
  by (simp add: resetButton_def broadcastReset_eq timingView_def option.map_comp comp_def
        eraseTimestamp_idem)

lemma view_raceLoaded:
  "timingView ((timingView s)\<lparr>currentRace := R\<rparr>) = timingView (s\<lparr>currentRace := R\<rparr>)"
  by (simp add: timingView_def option.map_comp comp_def eraseTimestamp_idem)

lemma view_receive:
  assumes "timingView (handleMessage d sender s) = timingView (handleMessage d' sender' s')"
  shows "timingView (triggerEffect now k (handleMessage d sender s))
         = timingView (triggerEffect now k (handleMessage d' sender' s'))"
  using assms by (rule triggerEffect_cong)

lemma timingView_step_view:
  "timingView (hostStep e (timingView s)) = timingView (hostStep e s)"
proof (cases e)
  case (ConnData c d now k)
  show ?thesis
  proof (cases "type d = JOIN")
    case True
    with ConnData show ?thesis by (simp add: view_connData_JOIN)
  next
    case False
    have "timingView (handleMessage d (peer c) (timingView s)) = timingView (handleMessage d (peer c) s)"
      unfolding timingView_handleMessage by (simp add: timingView_def)
    then have "timingView (triggerEffect now k (handleMessage d (peer c) (timingView s)))
               = timingView (triggerEffect now k (handleMessage d (peer c) s))"
      by (rule view_receive)
    with ConnData False show ?thesis by (simp add: connData_def)
  qed
qed (simp_all add: view_connOpen view_connClose view_connError view_setRole view_roleButton
       view_armButton view_cancelButton view_tick view_resetButton view_raceLoaded
       timingView_triggerEffect)

lemma type_eraseTimestamp: "type (eraseTimestamp d) = type d"
  by (simp add: eraseTimestamp_def)

lemma joinName_eraseTimestamp: "joinName (eraseTimestamp d) = joinName d"
  by (cases "payload d") (simp_all add: joinName_def eraseTimestamp_def)

lemma timingView_step_erase:
  "timingView (hostStep (eraseEvent e) s) = timingView (hostStep e s)"
proof (cases e)
  case (ConnData c d now k)
  show ?thesis
  proof (cases "type d = JOIN")
    case True
    with ConnData show ?thesis
      by (simp add: connData_def type_eraseTimestamp joinName_eraseTimestamp cong: if_cong)
  next
    case False
    have "timingView (handleMessage (eraseTimestamp d) (peer c) s) = timingView (handleMessage d (peer c) s)"
      by (simp add: timingView_handleMessage eraseTimestamp_idem)
    then have "timingView (triggerEffect now k (handleMessage (eraseTimestamp d) (peer c) s))
               = timingView (triggerEffect now k (handleMessage d (peer c) s))"
      by (rule view_receive)
    with ConnData False show ?thesis by (simp add: connData_def type_eraseTimestamp)
  qed
qed simp_all

lemma timingView_step:
  assumes "eraseEvent e = eraseEvent e'" "timingView s = timingView s'"
  shows "timingView (hostStep e s) = timingView (hostStep e' s')"
proof -
  have "timingView (hostStep e s) = timingView (hostStep (eraseEvent e) (timingView s))"
    by (simp add: timingView_step_view timingView_step_erase)
  also have "\<dots> = timingView (hostStep (eraseEvent e') (timingView s'))"
    by (simp add: assms)
  also have "\<dots> = timingView (hostStep e' s')"
    by (simp add: timingView_step_view timingView_step_erase)
  finally show ?thesis .
qed

lemma timingView_trace:
  assumes "map eraseEvent evs = map eraseEvent evs'" "timingView s = timingView s'"
  shows "map timingView (hostTrace evs s) = map timingView (hostTrace evs' s')"
  using assms
proof (induction evs arbitrary: evs' s s')
  case Nil
  then show ?case by simp
next
  case (Cons e es)
  from Cons.prems(1) obtain e' es' where evs': "evs' = e' # es'"
    and e: "eraseEvent e = eraseEvent e'" and es: "map eraseEvent es = map eraseEvent es'"
    by (cases evs') auto
  have st: "timingView (hostStep e s) = timingView (hostStep e' s')"
    by (rule timingView_step [OF e Cons.prems(2)])
  from Cons.IH [OF es st] st evs' show ?case by simp
qed

lemma view_fields:
  "raceState (timingView s) = raceState s"
  "elapsedTime (timingView s) = elapsedTime s"
  "startTime (timingView s) = startTime s"
  by (simp_all add: timingView_def)

lemma messageEffect_fields:
  assumes "messageEffect g = Inr g1"
  shows "loopArmed g1 = loopArmed g \<and> hostConnection g1 = hostConnection g \<and> sent g1 = sent g
       \<and> latestMessage g1 = latestMessage g
       \<and> (motionDetected g1 \<longrightarrow> motionDetected g)
       \<and> (gateStatus g1 = TRIGGERED \<longrightarrow> gateStatus g = TRIGGERED)
       \<and> (motionDetected g1 \<and> gateStatus g1 = GATE_ARMED \<longrightarrow> motionDetected g \<and> gateStatus g = GATE_ARMED)"
  using assms
  by (auto simp add: messageEffect_def motionArmSystem_def
        split: option.splits messageType.splits if_splits)





lemma gateRender_stable:
  assumes "fst (gateRender now g) = None"
  shows "gateStable (snd (gateRender now g))"
proof (cases "messageEffect g")
  case (Inl e)
  with assms show ?thesis by (simp add: gateRender_def)
next
  case (Inr g1)
  show ?thesis
  proof (cases "motionDetected g \<and> gateStatus g = GATE_ARMED")
    case True
    then have "gateStatus (motionEffect now g g1) = TRIGGERED"
      by (simp add: motionEffect_def handleMotionTrigger_def sendTrigger_v1_def send_def Let_def
            split: option.split)
    with Inr show ?thesis by (simp add: gateRender_def gateStable_def)
  next
    case False
    with messageEffect_fields [OF Inr] have "gateStable g1" "motionEffect now g g1 = g1"
      by (auto simp add: gateStable_def motionEffect_def)
    with Inr show ?thesis by (simp add: gateRender_def)
  qed
qed

lemma gateStep_stable:
  assumes "fst (gateStep e g) = None"
  shows "gateStable (snd (gateStep e g))"
  using assms by (cases e) (simp_all add: gateRender_stable)

lemma gateDeliver_reset:
  assumes "fst eg = None \<longrightarrow> gateStable (snd eg)"
  shows "gateDeliver h resetMessage now eg = resetGate eg"
  using assms
  by (auto simp add: gateDeliver_def resetGate_def gateRender_def handleMessage_v1_def
        messageEffect_def resetMessage_def motionArmSystem_def motionEffect_def gateStable_def
        split: option.split)

lemma resetGate_idem: "resetGate (resetGate eg) = resetGate eg"
  by (simp add: resetGate_def split: option.split)

lemma resetGate_stable: "fst (resetGate eg) = None \<longrightarrow> gateStable (snd (resetGate eg))"
  by (simp add: resetGate_def gateStable_def split: option.split)

lemma resetGate_rerender:
  assumes "fst eg = None"
  shows "gateStep (Rerender t) (snd (resetGate eg)) = (None, snd (resetGate eg))"
  using assms
  by (simp add: resetGate_def gateRender_def messageEffect_def motionArmSystem_def motionEffect_def)

lemma deliver_resets:
  assumes "\<forall>p\<in>set ps. fst (gs (conn p)) = None \<longrightarrow> gateStable (snd (gs (conn p)))"
  shows "deliver h clk (map (\<lambda>p. (conn p, resetMessage)) ps) gs
   = (\<lambda>c. if c \<in> conn ` set ps then resetGate (gs c) else gs c)"
  using assms
proof (induction ps arbitrary: clk gs)
  case Nil
  show ?case by simp
next
  case (Cons p ps)
  let ?gs = "gs(conn p := resetGate (gs (conn p)))"
  from Cons.prems have "fst (gs (conn p)) = None \<longrightarrow> gateStable (snd (gs (conn p)))" by simp
  then have d: "gateDeliver h resetMessage (clk 0) (gs (conn p)) = resetGate (gs (conn p))"
    by (rule gateDeliver_reset)
  have ok: "\<forall>q\<in>set ps. fst (?gs (conn q)) = None \<longrightarrow> gateStable (snd (?gs (conn q)))"
    using Cons.prems resetGate_stable [of "gs (conn p)"] by simp
  have "deliver h clk (map (\<lambda>p. (conn p, resetMessage)) (p # ps)) gs
        = deliver h (\<lambda>k. clk (Suc k)) (map (\<lambda>p. (conn p, resetMessage)) ps) ?gs"
    by (simp add: d)
  also have "\<dots> = (\<lambda>c. if c \<in> conn ` set ps then resetGate (?gs c) else ?gs c)"
    by (rule Cons.IH [OF ok])
  also have "\<dots> = (\<lambda>c. if c \<in> conn ` set (p # ps) then resetGate (gs c) else gs c)"
    by (rule ext) (simp add: resetGate_idem)
  finally show ?case .
qed

lemma sent_broadcastReset:
  "sent (broadcastReset s) = sent s @ map (\<lambda>p. (conn p, resetMessage)) (peers s)"
  by (simp add: broadcastReset_eq)

lemma broadcastReset_twice:
  "broadcastReset (broadcastReset s)
   = (broadcastReset s)\<lparr>sent := sent (broadcastReset s) @ map (\<lambda>p. (conn p, resetMessage)) (peers s)\<rparr>"
  by (simp add: broadcastReset_eq)

lemma hostBuffered_fields:
  "map conn (peers hostBuffered) = [connA, connB]
   \<and> triggerEvents hostBuffered = [(START, 1000), (FINISH, 5000)]
   \<and> length (sent hostBuffered) = 6"
  by (simp add: hostBuffered_def raceEvents_def hostRun_def host0_def connOpen_def setRole_def
        assignRole_eq armButton_def armSystem_eq canStart_def connData_def handleMessage_def
        triggerEffect_def handleTrigger_def startTimer_def stopTimer_def updateRaceStatus_def
        broadcastState_eq tick_eq triggerMessage_def connA_def connB_def emptyPayload_def)

lemma samplerInv_timerOwned: "samplerInv s \<Longrightarrow> timerOwned s"
  by (auto simp: samplerInv_def timerOwned_def split: option.splits)






















lemma viewRunning_fields:
  "raceState (fst viewRunning) = RUNNING
   \<and> startTime (fst viewRunning) = 5000
   \<and> elapsedTime (fst viewRunning) = 10
   \<and> timerInterval (fst viewRunning) = Some 1
   \<and> intervals (fst viewRunning) = []
   \<and> map conn (peers (fst viewRunning)) = [connA, connB]
   \<and> map peerRole (peers (fst viewRunning)) = [Some START, Some FINISH]
   \<and> length (sent (fst viewRunning)) = 4
   \<and> snd viewRunning = Some 1"
  by (simp add: viewRunning_def viewEvents_def viewRun_def view0_def host0_def render_def
        effectCleanup_def connOpen_def setRole_def
        assignRole_eq armButton_def armSystem_eq canStart_def connData_def handleMessage_def
        triggerEffect_def handleTrigger_def startTimer_def stopTimer_def updateRaceStatus_def
        broadcastState_eq tick_eq triggerMessage_def connA_def connB_def emptyPayload_def)

section \<open>The properties\<close>

text \<open>
  C1, as the claim states it, fails twice. \<^verbatim>\<open>assignRole\<close> only writes the role of the
  peer it is given: with A holding START, \<^verbatim>\<open>assignRole('B', START)\<close> leaves two peers of
  different ids holding START. And \<^verbatim>\<open>setRole\<close> tells holders apart by peer id: when peer A
  has opened two connections, the registry has two entries with id A, and after
  \<^verbatim>\<open>setRole('A', START)\<close> alone both entries hold START.
\<close>

theorem assignRole_not_exclusive_counterexample:
  "map peerId (peers hostIdle) = [''A'', ''B'']
   \<and> map peerRole (peers hostIdle) = [Some START, Some FINISH]
   \<and> roleExclusive (peers hostIdle)
   \<and> map peerRole (peers (assignRole ''B'' (Some START) hostIdle)) = [Some START, Some START]
   \<and> length (holders (Some START) (peers (assignRole ''B'' (Some START) hostIdle))) = 2
   \<and> \<not> roleExclusive (peers (assignRole ''B'' (Some START) hostIdle))
   \<and> map peerId (peers (hostRun twiceEvents host0)) = [''A'', ''A'']
   \<and> map conn (peers (hostRun twiceEvents host0)) = [connA, connA2]
   \<and> map peerRole (peers (hostRun twiceEvents host0)) = [Some START, Some START]
   \<and> length (holders (Some START) (peers (hostRun twiceEvents host0))) = 2"
  by (simp add: hostIdle_def host0_def peerA_def peerB_def assignRole_eq roleExclusive_def holders_def
        twiceEvents_def hostRun_def connOpen_def setRole_def connA_def connA2_def)

text \<open>
  C1, amended. \<^verbatim>\<open>assignRole(pid, r)\<close> itself writes the role of the entries with id \<open>pid\<close>
  and of no other, and sends one ROLE_ASSIGN(r) on the connection of the first of them.
  Exclusivity is the work of \<^verbatim>\<open>setRole\<close>, through which the host view assigns roles.
  After every sequence of host events, any two registry entries that hold the same role
  other than NONE have the same peer id; where the ids of the registry are distinct, at
  most one entry holds START and at most one holds FINISH. \<^verbatim>\<open>setRole(pid, r)\<close> sets the role
  of every entry that holds \<open>r\<close> under another id to NONE (and of every entry that shares
  the id of such a holder), sets the role of the entries with id \<open>pid\<close> to \<open>r\<close>, and leaves
  every other entry as it was; with \<open>r\<close> not NONE the entries that hold \<open>r\<close> afterwards are
  exactly those with id \<open>pid\<close>. It sends, for each other holder in registry order, one
  ROLE_ASSIGN(NONE) on the connection of the first entry with the holder's id, and then
  ROLE_ASSIGN(r) to the target; where the ids are distinct that is one ROLE_ASSIGN(NONE)
  on the connection of each other holder.
\<close>

theorem role_exclusivity:
  "peers (assignRole pid r s) = map (\<lambda>p. if peerId p = pid then p\<lparr>peerRole := r\<rparr> else p) (peers s)
   \<and> sent (assignRole pid r s) = sent s @ targetMessage pid \<lparr>type = ROLE_ASSIGN, payload = Some \<lparr>name = None, role = r, state = None, timestamp = None, raceId = None\<rparr>\<rparr> (peers s)
   \<and> roleExclusive (peers (hostRun evs host0))
   \<and> (distinct (map peerId (peers (hostRun evs host0))) \<longrightarrow>
        length (holders (Some START) (peers (hostRun evs host0))) \<le> 1
        \<and> length (holders (Some FINISH) (peers (hostRun evs host0))) \<le> 1)
   \<and> (roleExclusive (peers s) \<longrightarrow> roleExclusive (peers (setRole pid r s)))
   \<and> peers (setRole pid r s) = map (setRolePeer pid r (peers s)) (peers s)
   \<and> (\<forall>i<length (peers s). peerRole (peers s ! i) = r \<and> peerId (peers s ! i) \<noteq> pid \<longrightarrow>
        peers (setRole pid r s) ! i = (peers s ! i)\<lparr>peerRole := Some NONE\<rparr>)
   \<and> (r \<noteq> Some NONE \<longrightarrow> (\<forall>q\<in>set (peers (setRole pid r s)). (peerRole q = r) = (peerId q = pid)))
   \<and> sent (setRole pid r s)
       = sent s
         @ concat (map (\<lambda>x. targetMessage (peerId x) \<lparr>type = ROLE_ASSIGN, payload = Some \<lparr>name = None, role = Some NONE, state = None, timestamp = None, raceId = None\<rparr>\<rparr> (peers s)) (otherHolders pid r (peers s)))
         @ targetMessage pid \<lparr>type = ROLE_ASSIGN, payload = Some \<lparr>name = None, role = r, state = None, timestamp = None, raceId = None\<rparr>\<rparr> (peers s)
   \<and> (distinct (map peerId (peers s)) \<longrightarrow>
        sent (setRole pid r s)
        = sent s
          @ map (\<lambda>x. (conn x, \<lparr>type = ROLE_ASSIGN, payload = Some \<lparr>name = None, role = Some NONE, state = None, timestamp = None, raceId = None\<rparr>\<rparr>)) (otherHolders pid r (peers s))
          @ map (\<lambda>x. (conn x, \<lparr>type = ROLE_ASSIGN, payload = Some \<lparr>name = None, role = r, state = None, timestamp = None, raceId = None\<rparr>\<rparr>)) (filter (\<lambda>x. peerId x = pid) (peers s)))"
proof -
  have lit: "roleAssign r = \<lparr>type = ROLE_ASSIGN, payload = Some \<lparr>name = None, role = r, state = None, timestamp = None, raceId = None\<rparr>\<rparr>" "roleAssign (Some NONE) = \<lparr>type = ROLE_ASSIGN, payload = Some \<lparr>name = None, role = Some NONE, state = None, timestamp = None, raceId = None\<rparr>\<rparr>"
    by (simp_all add: roleAssign_def emptyPayload_def)
  have "roleExclusive (peers host0)"
    by (simp add: host0_def roleExclusive_def)
  then have ex: "roleExclusive (peers (hostRun evs host0))"
    by (rule roleExclusive_hostRun)
  have one: "length (holders (Some START) (peers (hostRun evs host0))) \<le> 1
        \<and> length (holders (Some FINISH) (peers (hostRun evs host0))) \<le> 1"
    if "distinct (map peerId (peers (hostRun evs host0)))"
    using holders_le_one [OF ex that] by simp
  have clr: "\<forall>q\<in>set (peers (setRole pid r s)). (peerRole q = r) = (peerId q = pid)" if "r \<noteq> Some NONE"
    using setRole_clears [OF _ that] by blast
  have idx: "\<forall>i<length (peers s). peerRole (peers s ! i) = r \<and> peerId (peers s ! i) \<noteq> pid \<longrightarrow>
        peers (setRole pid r s) ! i = (peers s ! i)\<lparr>peerRole := Some NONE\<rparr>"
    using setRole_clears_index by blast
  have sa: "sent (assignRole pid r s) = sent s @ targetMessage pid \<lparr>type = ROLE_ASSIGN, payload = Some \<lparr>name = None, role = r, state = None, timestamp = None, raceId = None\<rparr>\<rparr> (peers s)"
    using sent_assignRole [of pid r s] by (simp only: lit)
  have ss: "sent (setRole pid r s)
       = sent s
         @ concat (map (\<lambda>x. targetMessage (peerId x) \<lparr>type = ROLE_ASSIGN, payload = Some \<lparr>name = None, role = Some NONE, state = None, timestamp = None, raceId = None\<rparr>\<rparr> (peers s)) (otherHolders pid r (peers s)))
         @ targetMessage pid \<lparr>type = ROLE_ASSIGN, payload = Some \<lparr>name = None, role = r, state = None, timestamp = None, raceId = None\<rparr>\<rparr> (peers s)"
    using sent_setRole [of pid r s] by (simp only: lit)
  have sd: "sent (setRole pid r s)
        = sent s
          @ map (\<lambda>x. (conn x, \<lparr>type = ROLE_ASSIGN, payload = Some \<lparr>name = None, role = Some NONE, state = None, timestamp = None, raceId = None\<rparr>\<rparr>)) (otherHolders pid r (peers s))
          @ map (\<lambda>x. (conn x, \<lparr>type = ROLE_ASSIGN, payload = Some \<lparr>name = None, role = r, state = None, timestamp = None, raceId = None\<rparr>\<rparr>)) (filter (\<lambda>x. peerId x = pid) (peers s))"
    if "distinct (map peerId (peers s))"
  proof -
    note c = clears_distinct [OF that, of _ pid r] and t = targetMessage_distinct [OF that, of pid]
    show ?thesis unfolding ss c t ..
  qed
  from ex one clr idx sa ss sd roleExclusive_setRole [of s pid r] peers_assignRole [of pid r s]
    peers_setRole [of pid r s]
  show ?thesis by blast
qed

text \<open>
  C1 at two gates: a run that moves START from A to B, and \<^verbatim>\<open>setRole('B', START)\<close> on a host
  where A holds START and B holds FINISH.
\<close>

theorem role_exclusivity_witness:
  "sent (assignRole ''B'' (Some START) hostIdle) = [(connB, \<lparr>type = ROLE_ASSIGN, payload = Some \<lparr>name = None, role = Some START, state = None, timestamp = None, raceId = None\<rparr>\<rparr>)]
   \<and> map peerId (peers (hostRun swapEvents host0)) = [''A'', ''B'']
   \<and> map peerRole (peers (hostRun swapEvents host0)) = [Some NONE, Some START]
   \<and> roleExclusive (peers (hostRun swapEvents host0))
   \<and> distinct (map peerId (peers (hostRun swapEvents host0)))
   \<and> length (holders (Some START) (peers (hostRun swapEvents host0))) \<le> 1
   \<and> roleExclusive (peers hostIdle)
   \<and> distinct (map peerId (peers hostIdle))
   \<and> roleExclusive (peers (setRole ''B'' (Some START) hostIdle))
   \<and> peerRole (peers hostIdle ! 0) = Some START
   \<and> peers (setRole ''B'' (Some START) hostIdle) ! 0 = (peers hostIdle ! 0)\<lparr>peerRole := Some NONE\<rparr>
   \<and> map peerRole (peers (setRole ''B'' (Some START) hostIdle)) = [Some NONE, Some START]
   \<and> sent (setRole ''B'' (Some START) hostIdle) = [(connA, \<lparr>type = ROLE_ASSIGN, payload = Some \<lparr>name = None, role = Some NONE, state = None, timestamp = None, raceId = None\<rparr>\<rparr>), (connB, \<lparr>type = ROLE_ASSIGN, payload = Some \<lparr>name = None, role = Some START, state = None, timestamp = None, raceId = None\<rparr>\<rparr>)]"
proof -
  note T = role_exclusivity [of "''B''" "Some START" hostIdle swapEvents]
  have a: "map peerId (peers (hostRun swapEvents host0)) = [''A'', ''B'']
      \<and> map peerRole (peers (hostRun swapEvents host0)) = [Some NONE, Some START]"
    by (simp add: swapEvents_def hostRun_def host0_def connOpen_def setRole_def assignRole_eq
          connA_def connB_def)
  then have b: "distinct (map peerId (peers (hostRun swapEvents host0)))"
    by simp
  have c: "roleExclusive (peers hostIdle) \<and> distinct (map peerId (peers hostIdle))
      \<and> peerRole (peers hostIdle ! 0) = Some START \<and> peerId (peers hostIdle ! 0) \<noteq> ''B''
      \<and> 0 < length (peers hostIdle) \<and> sent hostIdle = []"
    by (simp add: hostIdle_def host0_def peerA_def peerB_def roleExclusive_def)
  have d: "otherHolders ''B'' (Some START) (peers hostIdle) = [peerA]
      \<and> filter (\<lambda>x. peerId x = ''B'') (peers hostIdle) = [peerB]
      \<and> targetMessage ''B'' \<lparr>type = ROLE_ASSIGN, payload = Some \<lparr>name = None, role = Some START, state = None, timestamp = None, raceId = None\<rparr>\<rparr> (peers hostIdle) = [(connB, \<lparr>type = ROLE_ASSIGN, payload = Some \<lparr>name = None, role = Some START, state = None, timestamp = None, raceId = None\<rparr>\<rparr>)]
      \<and> conn peerA = connA \<and> conn peerB = connB"
    by (simp add: hostIdle_def host0_def peerA_def peerB_def otherHolders_def targetMessage_def)
  have e: "map peerRole (peers (setRole ''B'' (Some START) hostIdle)) = [Some NONE, Some START]"
    by (simp add: hostIdle_def host0_def peerA_def peerB_def setRole_def assignRole_eq)
  from T have 1: "sent (assignRole ''B'' (Some START) hostIdle) = [(connB, \<lparr>type = ROLE_ASSIGN, payload = Some \<lparr>name = None, role = Some START, state = None, timestamp = None, raceId = None\<rparr>\<rparr>)]"
    using c d by simp
  from T b have 2: "roleExclusive (peers (hostRun swapEvents host0))
      \<and> length (holders (Some START) (peers (hostRun swapEvents host0))) \<le> 1"
    by blast
  from T c have 3: "roleExclusive (peers (setRole ''B'' (Some START) hostIdle))"
    by blast
  from T c have 4: "peers (setRole ''B'' (Some START) hostIdle) ! 0 = (peers hostIdle ! 0)\<lparr>peerRole := Some NONE\<rparr>"
    by blast
  from T c have "sent (setRole ''B'' (Some START) hostIdle)
        = sent hostIdle
          @ map (\<lambda>x. (conn x, \<lparr>type = ROLE_ASSIGN, payload = Some \<lparr>name = None, role = Some NONE, state = None, timestamp = None, raceId = None\<rparr>\<rparr>)) (otherHolders ''B'' (Some START) (peers hostIdle))
          @ map (\<lambda>x. (conn x, \<lparr>type = ROLE_ASSIGN, payload = Some \<lparr>name = None, role = Some START, state = None, timestamp = None, raceId = None\<rparr>\<rparr>)) (filter (\<lambda>x. peerId x = ''B'') (peers hostIdle))"
    by blast
  then have 5: "sent (setRole ''B'' (Some START) hostIdle) = [(connA, \<lparr>type = ROLE_ASSIGN, payload = Some \<lparr>name = None, role = Some NONE, state = None, timestamp = None, raceId = None\<rparr>\<rparr>), (connB, \<lparr>type = ROLE_ASSIGN, payload = Some \<lparr>name = None, role = Some START, state = None, timestamp = None, raceId = None\<rparr>\<rparr>)]"
    using c d by simp
  from 1 2 3 4 5 a b c e show ?thesis by simp
qed

text \<open>
  C2, as the claim states it, fails: \<^verbatim>\<open>armSystem\<close> reads neither \<^verbatim>\<open>canStart\<close> nor the
  status. Called on a FINISHED host whose only peer holds FINISH, it sets ARMED, resets
  the elapsed time and sends STATE_CHANGE("ARMED") to that peer.
\<close>

theorem arm_unguarded_counterexample:
  "\<not> canStart hostNoStart
   \<and> raceState hostNoStart = FINISHED
   \<and> elapsedTime hostNoStart = 4000
   \<and> raceState (armSystem hostNoStart) = ARMED
   \<and> elapsedTime (armSystem hostNoStart) = 0
   \<and> sent (armSystem hostNoStart) = sent hostNoStart @ [(connB, stateChange ''ARMED'' None)]"
  by (simp add: armSystem_eq hostNoStart_def host0_def canStart_def peerB_def)

text \<open>
  C2, amended. The guard is on the control: the Arm System button runs \<^verbatim>\<open>armSystem\<close> only
  when the status is IDLE or FINISHED and some registered peer holds START; otherwise
  (button disabled, or not rendered) an arm request leaves the host as it was.
  \<^verbatim>\<open>armSystem\<close> itself always sets ARMED, resets the elapsed time to 0 and sends
  STATE_CHANGE("ARMED") to every registered peer.
\<close>

theorem arm_precondition:
  "(\<not> canStart s \<longrightarrow> armButton s = s)
   \<and> (raceState s \<noteq> IDLE \<and> raceState s \<noteq> FINISHED \<longrightarrow> armButton s = s)
   \<and> (canStart s \<and> (raceState s = IDLE \<or> raceState s = FINISHED) \<longrightarrow> armButton s = armSystem s)
   \<and> raceState (armSystem s) = ARMED
   \<and> elapsedTime (armSystem s) = 0
   \<and> sent (armSystem s) = sent s @ map (\<lambda>p. (conn p, stateChange ''ARMED'' (currentRace s))) (peers s)"
  by (auto simp add: armButton_def armSystem_eq split: option.split)

text \<open>C2 at a host without a START peer, at a running host and at an idle host with one.\<close>

theorem arm_precondition_witness:
  "\<not> canStart hostNoStart
   \<and> armButton hostNoStart = hostNoStart
   \<and> raceState hostRunning \<noteq> IDLE \<and> raceState hostRunning \<noteq> FINISHED
   \<and> armButton hostRunning = hostRunning
   \<and> canStart hostIdle \<and> raceState hostIdle = IDLE
   \<and> armButton hostIdle = armSystem hostIdle
   \<and> raceState (armButton hostIdle) = ARMED
   \<and> sent (armButton hostIdle) = [(connA, stateChange ''ARMED'' None), (connB, stateChange ''ARMED'' None)]"
proof -
  have a: "\<not> canStart hostNoStart"
    by (simp add: hostNoStart_def host0_def canStart_def peerB_def)
  have b: "raceState hostRunning \<noteq> IDLE \<and> raceState hostRunning \<noteq> FINISHED"
    by (simp add: hostRunning_def)
  have c: "canStart hostIdle \<and> raceState hostIdle = IDLE"
    by (simp add: hostIdle_def host0_def canStart_def peerA_def)
  have d: "sent hostIdle = [] \<and> peers hostIdle = [peerA, peerB] \<and> currentRace hostIdle = None
           \<and> conn peerA = connA \<and> conn peerB = connB"
    by (simp add: hostIdle_def host0_def peerA_def peerB_def)
  from arm_precondition [of hostNoStart] arm_precondition [of hostRunning]
    arm_precondition [of hostIdle] a b c d
  show ?thesis by simp
qed

text \<open>
  C3 is not what the host view does with every trigger it ignores. A TRIGGER(FINISH) that
  arrives while the status is ARMED changes nothing, when it is received and rendered and
  when the view is rendered again. A TRIGGER(START) that arrives while the status is IDLE
  changes nothing either when it is received and rendered, but it stays the latest
  message, and the trigger effect runs again after every render: once Arm System has set
  ARMED, the render that follows acts on the old message and starts the race, at the
  host's clock of that render, no gate having triggered since.
\<close>

theorem ignored_start_replayed:
  "raceState (fst (viewRun earlyFinishEvents view0)) = ARMED
   \<and> startTime (fst (viewRun earlyFinishEvents view0)) = 0
   \<and> intervals (fst (viewRun earlyFinishEvents view0)) = []
   \<and> raceState (fst (viewRun lateStartEvents view0)) = IDLE
   \<and> startTime (fst (viewRun lateStartEvents view0)) = 0
   \<and> intervals (fst (viewRun lateStartEvents view0)) = []
   \<and> latestMessage (fst (viewRun lateStartEvents view0)) = Some (triggerMessage START 1000)
   \<and> raceState (fst (viewRun (lateStartEvents @ [Callback ArmButton]) view0)) = ARMED
   \<and> raceState (fst (viewRun (lateStartEvents @ [Callback ArmButton, Render 3000 3000]) view0)) = RUNNING
   \<and> startTime (fst (viewRun (lateStartEvents @ [Callback ArmButton, Render 3000 3000]) view0)) = 3000
   \<and> intervals (fst (viewRun (lateStartEvents @ [Callback ArmButton, Render 3000 3000]) view0)) = [(1, 3000)]"
  by (simp add: lateStartEvents_def earlyFinishEvents_def viewRun_def view0_def host0_def render_def
        effectCleanup_def connOpen_def setRole_def
        assignRole_eq armButton_def armSystem_eq canStart_def connData_def handleMessage_def
        triggerEffect_def handleTrigger_def startTimer_def stopTimer_def updateRaceStatus_def
        broadcastState_eq triggerMessage_def connA_def emptyPayload_def)

text \<open>
  C4. \<^verbatim>\<open>handleTrigger\<close> never reads its \<^verbatim>\<open>_remoteTimestamp\<close> parameter. Two runs of the
  host from the same state whose events agree in everything but the timestamps carried in
  message payloads pass through the same race status, the same start time and the same
  elapsed time after every event: these follow the host's own clock readings (\<open>now\<close>) only.
  The runs differ at most in \<^verbatim>\<open>latestMessage\<close> and \<^verbatim>\<open>triggerEvents\<close>, where the provider
  stores what it received.
\<close>

theorem timestamp_noninterference:
  assumes "map eraseEvent evs = map eraseEvent evs'"
  shows "map raceState (hostTrace evs s) = map raceState (hostTrace evs' s)
       \<and> map elapsedTime (hostTrace evs s) = map elapsedTime (hostTrace evs' s)
       \<and> map startTime (hostTrace evs s) = map startTime (hostTrace evs' s)
       \<and> map timingView (hostTrace evs s) = map timingView (hostTrace evs' s)
       \<and> handleTrigger r t1 now k s = handleTrigger r t2 now k s"
proof -
  have v: "map timingView (hostTrace evs s) = map timingView (hostTrace evs' s)"
    by (rule timingView_trace [OF assms refl])
  have "map raceState (map timingView (hostTrace evs s)) = map raceState (map timingView (hostTrace evs' s))"
    by (simp only: v)
  then have 1: "map raceState (hostTrace evs s) = map raceState (hostTrace evs' s)"
    by (simp add: comp_def view_fields)
  have "map elapsedTime (map timingView (hostTrace evs s)) = map elapsedTime (map timingView (hostTrace evs' s))"
    by (simp only: v)
  then have 2: "map elapsedTime (hostTrace evs s) = map elapsedTime (hostTrace evs' s)"
    by (simp add: comp_def view_fields)
  have "map startTime (map timingView (hostTrace evs s)) = map startTime (map timingView (hostTrace evs' s))"
    by (simp only: v)
  then have 3: "map startTime (hostTrace evs s) = map startTime (hostTrace evs' s)"
    by (simp add: comp_def view_fields)
  have 4: "handleTrigger r t1 now k s = handleTrigger r t2 now k s"
    by (simp add: handleTrigger_def)
  from 1 2 3 v 4 show ?thesis by simp
qed

text \<open>C4 at two races that differ in the gates' timestamps only.\<close>

theorem timestamp_noninterference_witness:
  "map eraseEvent raceEvents = map eraseEvent raceEventsShifted
   \<and> raceEvents \<noteq> raceEventsShifted
   \<and> map raceState (hostTrace raceEvents host0) = [IDLE, IDLE, IDLE, IDLE, ARMED, RUNNING, RUNNING, FINISHED]
   \<and> map raceState (hostTrace raceEventsShifted host0) = [IDLE, IDLE, IDLE, IDLE, ARMED, RUNNING, RUNNING, FINISHED]
   \<and> map elapsedTime (hostTrace raceEvents host0) = [0, 0, 0, 0, 0, 0, 10, 4000]
   \<and> map elapsedTime (hostTrace raceEventsShifted host0) = [0, 0, 0, 0, 0, 0, 10, 4000]"
proof -
  have a: "map eraseEvent raceEvents = map eraseEvent raceEventsShifted"
    by (simp add: raceEvents_def raceEventsShifted_def triggerMessage_def eraseTimestamp_def)
  have b: "raceEvents \<noteq> raceEventsShifted"
    by (simp add: raceEvents_def raceEventsShifted_def triggerMessage_def emptyPayload_def)
  have c: "map raceState (hostTrace raceEvents host0) = [IDLE, IDLE, IDLE, IDLE, ARMED, RUNNING, RUNNING, FINISHED]
      \<and> map elapsedTime (hostTrace raceEvents host0) = [0, 0, 0, 0, 0, 0, 10, 4000]"
    by (simp add: raceEvents_def host0_def connOpen_def setRole_def assignRole_eq
          armButton_def armSystem_eq canStart_def connData_def handleMessage_def triggerEffect_def
          handleTrigger_def startTimer_def stopTimer_def updateRaceStatus_def broadcastState_eq
          tick_eq triggerMessage_def connA_def connB_def emptyPayload_def)
  from timestamp_noninterference [OF a, of host0] a b c
  show ?thesis by simp
qed




text \<open>
  C7. After every sequence of host events from the initial state, \<open>samplerInv\<close> holds: in
  a status other than RUNNING no interval timer is alive and \<^verbatim>\<open>timerInterval\<close> is null. The
  exits from RUNNING and ARMED clear it: the FINISH trigger in RUNNING leaves FINISHED
  with no timer, and Cancel / Stop Race (\<^verbatim>\<open>cancelRace\<close>) in ARMED or RUNNING leaves IDLE
  with no timer.
\<close>

theorem sampler_cleanup:
  "samplerInv (hostRun evs host0)
   \<and> (raceState (hostRun evs host0) \<noteq> RUNNING \<longrightarrow>
        intervals (hostRun evs host0) = [] \<and> timerInterval (hostRun evs host0) = None)
   \<and> (samplerInv s \<and> raceState s = RUNNING \<longrightarrow>
        raceState (handleTrigger (Some FINISH) ts now k s) = FINISHED
        \<and> intervals (handleTrigger (Some FINISH) ts now k s) = []
        \<and> timerInterval (handleTrigger (Some FINISH) ts now k s) = None)
   \<and> (samplerInv s \<and> (raceState s = ARMED \<or> raceState s = RUNNING) \<longrightarrow>
        cancelButton s = cancelRace s
        \<and> raceState (cancelRace s) = IDLE
        \<and> intervals (cancelRace s) = []
        \<and> timerInterval (cancelRace s) = None)"
proof -
  have inv: "samplerInv (hostRun evs host0)"
    by (rule samplerInv_hostRun [OF samplerInv_host0])
  then have 1: "intervals (hostRun evs host0) = [] \<and> timerInterval (hostRun evs host0) = None"
    if "raceState (hostRun evs host0) \<noteq> RUNNING"
    using that by (auto simp: samplerInv_def split: option.splits)
  have 2: "raceState (handleTrigger (Some FINISH) ts now k s) = FINISHED
        \<and> intervals (handleTrigger (Some FINISH) ts now k s) = []
        \<and> timerInterval (handleTrigger (Some FINISH) ts now k s) = None"
    if "samplerInv s \<and> raceState s = RUNNING"
    using that
    by (simp add: handleTrigger_def updateRaceStatus_def broadcastState_eq stopTimer_inv
          split: option.split)
  have 3: "cancelButton s = cancelRace s \<and> raceState (cancelRace s) = IDLE
        \<and> intervals (cancelRace s) = [] \<and> timerInterval (cancelRace s) = None"
    if "samplerInv s \<and> (raceState s = ARMED \<or> raceState s = RUNNING)"
    using that cancelRace_inv [of s] by (auto simp: cancelButton_def)
  from inv 1 2 3 show ?thesis by blast
qed

text \<open>C7 at a whole race (join, roles, arm, START, tick, FINISH) and at a cancelled one.\<close>

theorem sampler_cleanup_witness:
  "raceState (hostRun raceEvents host0) \<noteq> RUNNING
   \<and> intervals (hostRun raceEvents host0) = []
   \<and> timerInterval (hostRun raceEvents host0) = None
   \<and> samplerInv hostRunning \<and> raceState hostRunning = RUNNING
   \<and> intervals hostRunning = [(1, 5000)]
   \<and> intervals (handleTrigger (Some FINISH) None 9000 9000 hostRunning) = []
   \<and> cancelButton hostRunning = cancelRace hostRunning
   \<and> raceState (cancelRace hostRunning) = IDLE
   \<and> intervals (cancelRace hostRunning) = []"
proof -
  have a: "raceState (hostRun raceEvents host0) = FINISHED"
    by (simp add: raceEvents_def hostRun_def host0_def connOpen_def setRole_def assignRole_eq
          armButton_def armSystem_eq canStart_def connData_def handleMessage_def triggerEffect_def
          handleTrigger_def startTimer_def stopTimer_def updateRaceStatus_def broadcastState_eq
          tick_eq triggerMessage_def connA_def connB_def emptyPayload_def)
  have b: "raceState hostRunning = RUNNING \<and> intervals hostRunning = [(1, 5000)]"
    by (simp add: hostRunning_def)
  from sampler_cleanup [of raceEvents hostRunning None 9000 9000] a b samplerInv_hostRunning
  show ?thesis by simp
qed

text \<open>
  C8, as the claim states it, fails: the second RESET broadcast does have an effect of
  its own. After a race with gates A and B the host has sent six messages; one
  \<^verbatim>\<open>broadcastReset\<close> sends two more, RESET to A and to B, and a second one sends RESET to A
  and to B again, so the host after two calls is not the host after one.
\<close>

theorem reset_twice_counterexample:
  "length (sent hostBuffered) = 6
   \<and> drop 6 (sent (broadcastReset hostBuffered)) = [(connA, \<lparr>type = RESET, payload = None\<rparr>), (connB, \<lparr>type = RESET, payload = None\<rparr>)]
   \<and> drop 6 (sent (broadcastReset (broadcastReset hostBuffered)))
       = [(connA, \<lparr>type = RESET, payload = None\<rparr>), (connB, \<lparr>type = RESET, payload = None\<rparr>), (connA, \<lparr>type = RESET, payload = None\<rparr>), (connB, \<lparr>type = RESET, payload = None\<rparr>)]
   \<and> broadcastReset (broadcastReset hostBuffered) \<noteq> broadcastReset hostBuffered"
proof -
  note f = hostBuffered_fields
  have "map (\<lambda>p. (conn p, \<lparr>type = RESET, payload = None\<rparr>)) (peers hostBuffered)
        = map (\<lambda>c. (c, \<lparr>type = RESET, payload = None\<rparr>)) (map conn (peers hostBuffered))"
    by (simp add: comp_def)
  with f have m: "map (\<lambda>p. (conn p, \<lparr>type = RESET, payload = None\<rparr>)) (peers hostBuffered) = [(connA, \<lparr>type = RESET, payload = None\<rparr>), (connB, \<lparr>type = RESET, payload = None\<rparr>)]"
    by simp
  have 1: "drop 6 (sent (broadcastReset hostBuffered)) = [(connA, \<lparr>type = RESET, payload = None\<rparr>), (connB, \<lparr>type = RESET, payload = None\<rparr>)]"
    using f m by (simp add: broadcastReset_eq resetMessage_def)
  have 2: "drop 6 (sent (broadcastReset (broadcastReset hostBuffered)))
       = [(connA, \<lparr>type = RESET, payload = None\<rparr>), (connB, \<lparr>type = RESET, payload = None\<rparr>), (connA, \<lparr>type = RESET, payload = None\<rparr>), (connB, \<lparr>type = RESET, payload = None\<rparr>)]"
    using f m by (simp add: broadcastReset_eq resetMessage_def)
  from 1 2 have "sent (broadcastReset (broadcastReset hostBuffered)) \<noteq> sent (broadcastReset hostBuffered)"
    by auto
  then have 3: "broadcastReset (broadcastReset hostBuffered) \<noteq> broadcastReset hostBuffered"
    by auto
  from f 1 2 3 show ?thesis by simp
qed

text \<open>
  C8, amended. \<^verbatim>\<open>broadcastReset\<close> sends RESET on the connection of every registered peer
  and empties \<^verbatim>\<open>triggerEvents\<close>. A second call at once sends RESET to every registered peer
  a second time and changes nothing else in the host. For the gates it makes no
  difference: where the gate of every registered peer is at rest (no detected motion is
  waiting in an ARMED gate, which holds after every render) or its view is gone,
  delivering the messages of two calls leaves every gate in the state in which delivering
  the messages of one call leaves it, and every gate of a registered peer whose view is
  alive is then in LOBBY with its detector disarmed and stays so under further renders.
  The dropped prefix is what the host had sent before.
\<close>

theorem idempotent_reset:
  "sent (broadcastReset s) = sent s @ map (\<lambda>p. (conn p, \<lparr>type = RESET, payload = None\<rparr>)) (peers s)
   \<and> triggerEvents (broadcastReset s) = []
   \<and> triggerEvents (broadcastReset (broadcastReset s)) = []
   \<and> broadcastReset (broadcastReset s)
       = (broadcastReset s)\<lparr>sent := sent (broadcastReset s) @ map (\<lambda>p. (conn p, \<lparr>type = RESET, payload = None\<rparr>)) (peers s)\<rparr>
   \<and> ((\<forall>p\<in>set (peers s). fst (gs (conn p)) = None \<longrightarrow> gateStable (snd (gs (conn p)))) \<longrightarrow>
        deliver h clk2 (drop (length (sent s)) (sent (broadcastReset (broadcastReset s)))) gs
          = deliver h clk1 (drop (length (sent s)) (sent (broadcastReset s))) gs
        \<and> (\<forall>p\<in>set (peers s). fst (gs (conn p)) = None \<longrightarrow>
             fst (deliver h clk2 (drop (length (sent s)) (sent (broadcastReset (broadcastReset s)))) gs (conn p)) = None
             \<and> gateStatus (snd (deliver h clk2 (drop (length (sent s)) (sent (broadcastReset (broadcastReset s)))) gs (conn p))) = LOBBY
             \<and> isArmed (snd (deliver h clk2 (drop (length (sent s)) (sent (broadcastReset (broadcastReset s)))) gs (conn p))) = False
             \<and> gateStep (Rerender t)
                 (snd (deliver h clk2 (drop (length (sent s)) (sent (broadcastReset (broadcastReset s)))) gs (conn p)))
               = (None, snd (deliver h clk2 (drop (length (sent s)) (sent (broadcastReset (broadcastReset s)))) gs (conn p)))))"
proof -
  let ?m = "\<lambda>p::connectedPeer. (conn p, resetMessage)"
  let ?D2 = "deliver h clk2 (drop (length (sent s)) (sent (broadcastReset (broadcastReset s)))) gs"
  have lit: "resetMessage = \<lparr>type = RESET, payload = None\<rparr>" by (simp add: resetMessage_def)
  have once: "drop (length (sent s)) (sent (broadcastReset s)) = map ?m (peers s)"
    by (simp add: broadcastReset_eq)
  have twice: "drop (length (sent s)) (sent (broadcastReset (broadcastReset s))) = map ?m (peers s @ peers s)"
    by (simp add: broadcastReset_eq)
  have te: "triggerEvents (broadcastReset s) = [] \<and> triggerEvents (broadcastReset (broadcastReset s)) = []"
    by (simp add: broadcastReset_eq)
  have gates: "?D2 = deliver h clk1 (drop (length (sent s)) (sent (broadcastReset s))) gs
        \<and> (\<forall>p\<in>set (peers s). fst (gs (conn p)) = None \<longrightarrow>
             fst (?D2 (conn p)) = None
             \<and> gateStatus (snd (?D2 (conn p))) = LOBBY
             \<and> isArmed (snd (?D2 (conn p))) = False
             \<and> gateStep (Rerender t) (snd (?D2 (conn p))) = (None, snd (?D2 (conn p))))"
    if ok: "\<forall>p\<in>set (peers s). fst (gs (conn p)) = None \<longrightarrow> gateStable (snd (gs (conn p)))"
  proof -
    have d1: "deliver h clk1 (map ?m (peers s)) gs
        = (\<lambda>c. if c \<in> conn ` set (peers s) then resetGate (gs c) else gs c)"
      by (rule deliver_resets [OF ok])
    from ok have ok2: "\<forall>p\<in>set (peers s @ peers s). fst (gs (conn p)) = None \<longrightarrow> gateStable (snd (gs (conn p)))"
      by simp
    have d2: "deliver h clk2 (map ?m (peers s @ peers s)) gs
        = (\<lambda>c. if c \<in> conn ` set (peers s) then resetGate (gs c) else gs c)"
      using deliver_resets [OF ok2, of h clk2] by simp
    have eq: "?D2 = deliver h clk1 (drop (length (sent s)) (sent (broadcastReset s))) gs"
      by (simp only: once twice d1 d2)
    have lobby: "fst (?D2 (conn p)) = None
             \<and> gateStatus (snd (?D2 (conn p))) = LOBBY
             \<and> isArmed (snd (?D2 (conn p))) = False
             \<and> gateStep (Rerender t) (snd (?D2 (conn p))) = (None, snd (?D2 (conn p)))"
      if p: "p \<in> set (peers s)" "fst (gs (conn p)) = None" for p
    proof -
      have D: "?D2 (conn p) = resetGate (gs (conn p))"
        using p(1) by (simp only: twice d2) simp
      show ?thesis
        unfolding D using p(2) resetGate_rerender [OF p(2), of t]
        by (simp add: resetGate_def)
    qed
    from eq lobby show ?thesis by blast
  qed
  from sent_broadcastReset [of s] te broadcastReset_twice [of s] gates
  show ?thesis unfolding lit by blast
qed

text \<open>
  C8 after a race with two gates: the host has buffered the two triggers, gate A is ARMED
  with its detector armed and gate B is in LOBBY.
\<close>

theorem idempotent_reset_witness:
  "triggerEvents hostBuffered = [(START, 1000), (FINISH, 5000)]
   \<and> drop 6 (sent (broadcastReset hostBuffered)) = [(connA, \<lparr>type = RESET, payload = None\<rparr>), (connB, \<lparr>type = RESET, payload = None\<rparr>)]
   \<and> triggerEvents (broadcastReset hostBuffered) = []
   \<and> triggerEvents (broadcastReset (broadcastReset hostBuffered)) = []
   \<and> fst (gatesAB connA) = None \<and> gateStatus (snd (gatesAB connA)) = GATE_ARMED
   \<and> isArmed (snd (gatesAB connA)) \<and> gateRole (snd (gatesAB connA)) = Some START
   \<and> gateStable (snd (gatesAB connA))
   \<and> fst (gatesAB connB) = None \<and> gateStable (snd (gatesAB connB))
   \<and> deliver ''4821'' (\<lambda>k. 9000 + int k) (drop 6 (sent (broadcastReset (broadcastReset hostBuffered)))) gatesAB
       = deliver ''4821'' (\<lambda>k. 9000 + int k) (drop 6 (sent (broadcastReset hostBuffered))) gatesAB
   \<and> gateStatus (snd (deliver ''4821'' (\<lambda>k. 9000 + int k)
        (drop 6 (sent (broadcastReset (broadcastReset hostBuffered)))) gatesAB connA)) = LOBBY
   \<and> isArmed (snd (deliver ''4821'' (\<lambda>k. 9000 + int k)
        (drop 6 (sent (broadcastReset (broadcastReset hostBuffered)))) gatesAB connA)) = False
   \<and> gateStatus (snd (deliver ''4821'' (\<lambda>k. 9000 + int k)
        (drop 6 (sent (broadcastReset (broadcastReset hostBuffered)))) gatesAB connB)) = LOBBY"
proof -
  let ?clk = "\<lambda>k. 9000 + int k"
  let ?D = "deliver ''4821'' ?clk (drop 6 (sent (broadcastReset (broadcastReset hostBuffered)))) gatesAB"
  note f = hostBuffered_fields
  from f obtain pa pb where ps: "peers hostBuffered = [pa, pb]" "conn pa = connA" "conn pb = connB"
    by (auto simp add: map_eq_Cons_conv)
  have g: "fst (gatesAB connA) = None \<and> gateStatus (snd (gatesAB connA)) = GATE_ARMED
      \<and> isArmed (snd (gatesAB connA)) \<and> gateRole (snd (gatesAB connA)) = Some START
      \<and> gateStable (snd (gatesAB connA))
      \<and> fst (gatesAB connB) = None \<and> gateStable (snd (gatesAB connB))"
    by (simp add: gatesAB_def connA_def connB_def gate0_def armedMessage_def roleAssign_def
          emptyPayload_def gateRender_def handleMessage_v1_def messageEffect_def motionArmSystem_def
          motionEffect_def gateStable_def)
  then have ok: "\<forall>p\<in>set (peers hostBuffered). fst (gatesAB (conn p)) = None \<longrightarrow> gateStable (snd (gatesAB (conn p)))"
    by (simp add: ps)
  note T = idempotent_reset [of hostBuffered gatesAB "''4821''" ?clk ?clk 0]
  from T have "sent (broadcastReset hostBuffered)
      = sent hostBuffered @ map (\<lambda>p. (conn p, \<lparr>type = RESET, payload = None\<rparr>)) (peers hostBuffered)"
    by blast
  then have t1: "drop 6 (sent (broadcastReset hostBuffered)) = [(connA, \<lparr>type = RESET, payload = None\<rparr>), (connB, \<lparr>type = RESET, payload = None\<rparr>)]"
    using f by (simp add: ps)
  from T have t2: "triggerEvents (broadcastReset hostBuffered) = []
      \<and> triggerEvents (broadcastReset (broadcastReset hostBuffered)) = []"
    by blast
  have len: "length (sent hostBuffered) = 6" using f by simp
  from T ok have G1: "deliver ''4821'' ?clk (drop (length (sent hostBuffered)) (sent (broadcastReset (broadcastReset hostBuffered)))) gatesAB
          = deliver ''4821'' ?clk (drop (length (sent hostBuffered)) (sent (broadcastReset hostBuffered))) gatesAB"
    by blast
  from T ok have G2: "\<forall>p\<in>set (peers hostBuffered). fst (gatesAB (conn p)) = None \<longrightarrow>
             gateStatus (snd (deliver ''4821'' ?clk (drop (length (sent hostBuffered)) (sent (broadcastReset (broadcastReset hostBuffered)))) gatesAB (conn p))) = LOBBY
             \<and> isArmed (snd (deliver ''4821'' ?clk (drop (length (sent hostBuffered)) (sent (broadcastReset (broadcastReset hostBuffered)))) gatesAB (conn p))) = False"
    by blast
  from G1 have t3: "?D = deliver ''4821'' ?clk (drop 6 (sent (broadcastReset hostBuffered))) gatesAB"
    by (simp only: len)
  from G2 have L: "\<forall>p\<in>set (peers hostBuffered). fst (gatesAB (conn p)) = None \<longrightarrow>
      gateStatus (snd (?D (conn p))) = LOBBY \<and> isArmed (snd (?D (conn p))) = False"
    by (simp only: len)
  from L g have t4: "gateStatus (snd (?D connA)) = LOBBY \<and> isArmed (snd (?D connA)) = False
      \<and> gateStatus (snd (?D connB)) = LOBBY"
    by (simp add: ps)
  from f t1 t2 g t3 t4 show ?thesis by simp
qed

text \<open>
  C9. While no host connection is established (\<^verbatim>\<open>hostConnectionRef.current\<close>, or the
  \<^verbatim>\<open>hostConnection\<close> state of the earlier hook, is null), \<^verbatim>\<open>sendTrigger\<close> and the other
  sends toward the host return the state they were given: nothing is appended to the log
  of sent messages and no variable of the client changes. The functions have no failing
  branch, so no error is raised.
\<close>

theorem unconnected_send_noop:
  assumes "hostConnection s = None"
  shows "sendTrigger r t rid s = s
       \<and> sendToHostInternal d s = s
       \<and> sendTrigger_v1 r t s = s
       \<and> sendToHost_v1 d s = s
       \<and> sent (sendTrigger r t rid s) = sent s"
  using assms
  by (simp add: sendTrigger_def sendToHostInternal_def sendTrigger_v1_def sendToHost_v1_def)

text \<open>C9 at a client that has not connected.\<close>

theorem unconnected_send_noop_witness:
  "hostConnection client0 = None
   \<and> sendTrigger (Some START) 1000 None client0 = client0
   \<and> sendToHostInternal resetMessage client0 = client0
   \<and> sendTrigger_v1 (Some START) 1000 client0 = client0
   \<and> sendToHost_v1 resetMessage client0 = client0
   \<and> sent (sendTrigger (Some START) 1000 None client0) = []"
proof -
  have h: "hostConnection client0 = None" by (simp add: client0_def)
  have "sent client0 = []" by (simp add: client0_def)
  with h unconnected_send_noop [OF h, of "Some START" 1000 None resetMessage]
  show ?thesis by simp
qed

text \<open>
  C10 is not what the host view does. The branch of \<^verbatim>\<open>handleTrigger\<close> that records a split
  tests \<^verbatim>\<open>role === GateRole.SPLIT\<close>, and \<^verbatim>\<open>GateRole\<close> has no member SPLIT: the branch is taken
  by the trigger that carries no role. And it is taken again after every render while
  that message is the latest: 2000 ms into the race of \<open>viewRunning\<close> one such message is
  received, and the three renders that follow leave three entries in \<^verbatim>\<open>splitTimes\<close>. The
  status, the start time, the elapsed time and the timers stay as they were.
\<close>

theorem split_recorded_on_every_render:
  "splitTimes (fst viewRunning) = Map.empty
   \<and> splitTimes (fst (viewRun (take 2 splitEvents) viewRunning)) = [''7001'' \<mapsto> 2000]
   \<and> splitTimes (fst (viewRun splitEvents viewRunning))
       = [''7001'' \<mapsto> 2000, ''7011'' \<mapsto> 2010, ''7021'' \<mapsto> 2020]
   \<and> raceState (fst (viewRun splitEvents viewRunning)) = RUNNING
   \<and> startTime (fst (viewRun splitEvents viewRunning)) = 5000
   \<and> elapsedTime (fst (viewRun splitEvents viewRunning)) = 10
   \<and> timerInterval (fst (viewRun splitEvents viewRunning)) = Some 1"
proof -
  have s0: "splitTimes (fst viewRunning) = Map.empty"
    by (simp add: viewRunning_def viewEvents_def viewRun_def view0_def host0_def render_def
        effectCleanup_def connOpen_def setRole_def
        assignRole_eq armButton_def armSystem_eq canStart_def connData_def handleMessage_def
        triggerEffect_def handleTrigger_def startTimer_def stopTimer_def updateRaceStatus_def
        broadcastState_eq tick_eq triggerMessage_def connA_def connB_def emptyPayload_def)
  have ts: "toString 7001 = ''7001''" "toString 7011 = ''7011''" "toString 7021 = ''7021''"
    by (simp_all add: toString_def natToString.simps digitChar_def)
  note f = viewRunning_fields
  have r: "fst (viewRun splitEvents viewRunning)
      = (fst viewRunning)\<lparr>latestMessage := Some splitMessage,
           splitTimes := [''7001'' \<mapsto> 2000, ''7011'' \<mapsto> 2010, ''7021'' \<mapsto> 2020]\<rparr>
    \<and> fst (viewRun (take 2 splitEvents) viewRunning)
      = (fst viewRunning)\<lparr>latestMessage := Some splitMessage, splitTimes := [''7001'' \<mapsto> 2000]\<rparr>"
    using f s0
    by (cases viewRunning)
       (simp add: splitEvents_def splitMessage_def viewRun_def render_def effectCleanup_def
          connData_def handleMessage_def triggerEffect_def handleTrigger_def ts)
  from r f s0 show ?thesis by simp
qed

end
